theory Spec2Isabelle
  imports Complex_Main
begin

section \<open>Extended Kalman filter for the CTRV vehicle model\<close>

text \<open>
  The development embeds the filter loop of \<^verbatim>\<open>Extended-Kalman-Filter-CTRV.py\<close>
  (lines 410 to 507) together with what it reads: the constants \<^verbatim>\<open>dt\<close>, \<^verbatim>\<open>Q\<close>,
  \<^verbatim>\<open>R\<close>, \<^verbatim>\<open>I\<close>, the initial covariance and state (lines 124 and 348) and
  the symbolic motion model \<^verbatim>\<open>gs\<close> (lines 77 to 81), from which the notebook derives
  its Jacobian. Floating-point numbers are read as real numbers, so every statement
  below is one of exact arithmetic. Where numpy would continue with \<^verbatim>\<open>inf\<close> or
  \<^verbatim>\<open>nan\<close> (a division by a zero yaw rate) or raise (\<^verbatim>\<open>np.linalg.inv\<close> on a
  singular matrix), the two updates of a pass return an error value. The loop writes
  the row of a pass before the updates of that pass; it stops at the exception, with
  the rows written so far, and after a division by zero it goes on to the end of the
  log with a state and a covariance that hold \<^verbatim>\<open>nan\<close>. Vectors and matrices are
  functions from indices, read on the indices below their size only.
\<close>

subsection \<open>Vectors and matrices\<close>

type_synonym vec = "nat \<Rightarrow> real"
type_synonym mat = "nat \<Rightarrow> nat \<Rightarrow> real"

definition vec_of :: "real list \<Rightarrow> vec" where
  "vec_of xs = (\<lambda>i. if i < length xs then xs ! i else 0)"

definition mat_of :: "real list list \<Rightarrow> mat" where
  "mat_of rows = (\<lambda>i j. if i < length rows \<and> j < length (rows ! i) then rows ! i ! j else 0)"

definition diag_of :: "real list \<Rightarrow> mat" where
  \<comment> \<open>\<^verbatim>\<open>np.diag\<close> of a list\<close>
  "diag_of ds = (\<lambda>i j. if i = j \<and> i < length ds then ds ! i else 0)"

definition eye :: "nat \<Rightarrow> mat" where
  "eye n = (\<lambda>i j. if i = j \<and> i < n then 1 else 0)"

definition mT :: "mat \<Rightarrow> mat" where
  "mT A = (\<lambda>i j. A j i)"

definition madd :: "mat \<Rightarrow> mat \<Rightarrow> mat" where
  "madd A B = (\<lambda>i j. A i j + B i j)"

definition msub :: "mat \<Rightarrow> mat \<Rightarrow> mat" where
  "msub A B = (\<lambda>i j. A i j - B i j)"

definition mmul :: "nat \<Rightarrow> mat \<Rightarrow> mat \<Rightarrow> mat" where
  \<comment> \<open>the matrix product; \<open>n\<close> is the number of columns of \<open>A\<close> and of rows of \<open>B\<close>\<close>
  "mmul n A B = (\<lambda>i j. \<Sum>k<n. A i k * B k j)"

definition mvec :: "nat \<Rightarrow> mat \<Rightarrow> vec \<Rightarrow> vec" where
  \<comment> \<open>a matrix times a column vector of \<open>n\<close> rows\<close>
  "mvec n A v = (\<lambda>i. \<Sum>k<n. A i k * v k)"

definition vadd :: "vec \<Rightarrow> vec \<Rightarrow> vec" where
  "vadd u v = (\<lambda>i. u i + v i)"

definition vsub :: "vec \<Rightarrow> vec \<Rightarrow> vec" where
  "vsub u v = (\<lambda>i. u i - v i)"

definition dot :: "nat \<Rightarrow> vec \<Rightarrow> vec \<Rightarrow> real" where
  "dot n u v = (\<Sum>k<n. u k * v k)"

definition qf :: "nat \<Rightarrow> mat \<Rightarrow> vec \<Rightarrow> real" where
  \<comment> \<open>the quadratic form \<open>v\<^sup>T M v\<close> of an \<open>n\<close> by \<open>n\<close> matrix\<close>
  "qf n M v = dot n v (mvec n M v)"

definition symmetric :: "nat \<Rightarrow> mat \<Rightarrow> bool" where
  "symmetric n M = (\<forall>i<n. \<forall>j<n. M i j = M j i)"

definition psd :: "nat \<Rightarrow> mat \<Rightarrow> bool" where
  "psd n M = (\<forall>v. 0 \<le> qf n M v)"

definition pd :: "nat \<Rightarrow> mat \<Rightarrow> bool" where
  "pd n M = (\<forall>v. (\<exists>i<n. v i \<noteq> 0) \<longrightarrow> 0 < qf n M v)"

definition diagonal :: "nat \<Rightarrow> mat \<Rightarrow> bool" where
  "diagonal n M = (\<forall>i<n. \<forall>j<n. i \<noteq> j \<longrightarrow> M i j = 0)"

subsection \<open>Errors and the inverse of the innovation covariance\<close>

datatype error =
    FloatDivideByZero  \<comment> \<open>numpy divides by \<open>0.0\<close> and continues with \<^verbatim>\<open>inf\<close> or \<^verbatim>\<open>nan\<close>\<close>
  | LinAlgError        \<comment> \<open>\<^verbatim>\<open>np.linalg.inv\<close> raises on a singular matrix\<close>

definition minor4 :: "mat \<Rightarrow> nat \<Rightarrow> nat \<Rightarrow> mat" where
  \<comment> \<open>the matrix without row \<open>r\<close> and column \<open>c\<close>\<close>
  "minor4 A r c = (\<lambda>i j. A (if i < r then i else Suc i) (if j < c then j else Suc j))"

definition det3 :: "mat \<Rightarrow> real" where
  "det3 M = M 0 0 * (M 1 1 * M 2 2 - M 1 2 * M 2 1)
          - M 0 1 * (M 1 0 * M 2 2 - M 1 2 * M 2 0)
          + M 0 2 * (M 1 0 * M 2 1 - M 1 1 * M 2 0)"

definition det4 :: "mat \<Rightarrow> real" where
  "det4 A = A 0 0 * det3 (minor4 A 0 0) - A 0 1 * det3 (minor4 A 0 1)
          + A 0 2 * det3 (minor4 A 0 2) - A 0 3 * det3 (minor4 A 0 3)"

definition linalg_inv :: "mat \<Rightarrow> error + mat" where
  \<comment> \<open>\<^verbatim>\<open>np.linalg.inv\<close> on a 4 by 4 matrix, in exact arithmetic: the inverse (here by
      cofactors) when there is one, the exception otherwise\<close>
  "linalg_inv A =
     (if det4 A = 0 then Inl LinAlgError
      else Inr (\<lambda>i j. if i < 4 \<and> j < 4
                       then (- 1) ^ (i + j) * det3 (minor4 A j i) / det4 A else 0))"

subsection \<open>Constants of the notebook\<close>

definition numstates :: nat where
  "numstates = 5"

definition dt :: real where
  "dt = 1 / 50"

definition Q :: mat where
  \<comment> \<open>lines 163 to 168; \<^verbatim>\<open>sGPS\<close>, \<^verbatim>\<open>sCourse\<close>, \<^verbatim>\<open>sVelocity\<close>, \<^verbatim>\<open>sYaw\<close>\<close>
  "Q = (let sGPS = 0.5 * 8.8 * dt ^ 2; sCourse = 0.1 * dt;
            sVelocity = 8.8 * dt; sYaw = 1.0 * dt
        in diag_of [sGPS ^ 2, sGPS ^ 2, sCourse ^ 2, sVelocity ^ 2, sYaw ^ 2])"

definition R :: mat where
  \<comment> \<open>lines 279 to 285\<close>
  "R = (let sGPS = 5.0; sspeed = 2.0; syaw = 0.01
        in mat_of [[sGPS ^ 2, 0, 0, 0],
                   [0, sGPS ^ 2, 0, 0],
                   [0, 0, sspeed ^ 2, 0],
                   [0, 0, 0, syaw ^ 2]])"

definition P0 :: mat where
  \<comment> \<open>line 124, the initial covariance\<close>
  "P0 = diag_of [1000, 1000, 1000, 1000, 1000]"

subsection \<open>One sample of the log\<close>

record sample =
  mx :: real        \<comment> \<open>position east in metres\<close>
  my :: real        \<comment> \<open>position north in metres\<close>
  speed :: real     \<comment> \<open>km/h\<close>
  yawrate :: real   \<comment> \<open>degrees per second, as logged\<close>
  course :: real    \<comment> \<open>degrees, after the offset of line 240\<close>
  GPS :: bool       \<comment> \<open>the position-fix trigger\<close>

definition measurements :: "sample \<Rightarrow> vec" where
  \<comment> \<open>line 365, one column\<close>
  "measurements s = vec_of [mx s, my s, speed s / 3.6, yawrate s / 180 * pi]"

definition initial_state :: "sample \<Rightarrow> vec" where
  \<comment> \<open>line 348, from the first sample of the log\<close>
  "initial_state s =
     vec_of [mx s, my s, course s / 180 * pi, speed s / 3.6 + 0.001, yawrate s / 180 * pi]"

subsection \<open>The body of the filter loop\<close>

definition pymod :: "real \<Rightarrow> real \<Rightarrow> real" where
  \<comment> \<open>Python's \<^verbatim>\<open>%\<close> on floats for a positive divisor: the result has the divisor's sign\<close>
  "pymod a b = a - b * of_int \<lfloor>a / b\<rfloor>"

definition ddstate :: "sample \<Rightarrow> nat" where
  \<comment> \<open>lines 412 to 415\<close>
  "ddstate s = (if \<bar>yawrate s\<bar> < 0.0001 then 0 else 1)"

definition JH :: "sample \<Rightarrow> mat" where
  \<comment> \<open>lines 416 to 425\<close>
  "JH s = (if GPS s
           then mat_of [[1, 0, 0, 0, 0],
                        [0, 1, 0, 0, 0],
                        [0, 0, 0, 1, 0],
                        [0, 0, 0, 0, 1]]
           else mat_of [[0, 0, 0, 0, 0],
                        [0, 0, 0, 0, 0],
                        [0, 0, 0, 1, 0],
                        [0, 0, 0, 0, 1]])"

definition dataout :: "vec \<Rightarrow> sample \<Rightarrow> real list" where
  \<comment> \<open>lines 427 to 430: the row written for the sample, each field through \<^verbatim>\<open>float\<close>\<close>
  "dataout x s =
     (let Z = measurements s
      in [x 0, x 1, x 2, x 3, x 4, Z 0, Z 1, Z 2, Z 3,
          real (ddstate s), (if GPS s then 1 else 0)])"

definition project_state :: "nat \<Rightarrow> vec \<Rightarrow> error + vec" where
  \<comment> \<open>lines 437 to 450, the assignments in the order of the source\<close>
  "project_state dd x =
     (if dd = 0 then
        (let x = x(0 := x 0 + x 3 * dt * cos (x 2));
             x = x(1 := x 1 + x 3 * dt * sin (x 2));
             x = x(2 := x 2);
             x = x(3 := x 3);
             x = x(4 := 0.0000001)
         in Inr x)
      else if x 4 = 0 then Inl FloatDivideByZero
      else
        (let x = x(0 := x 0 + (x 3 / x 4) * (sin (x 4 * dt + x 2) - sin (x 2)));
             x = x(1 := x 1 + (x 3 / x 4) * (- cos (x 4 * dt + x 2) + cos (x 2)));
             x = x(2 := pymod (x 2 + x 4 * dt + pi) (2.0 * pi) - pi);
             x = x(3 := x 3);
             x = x(4 := x 4)
         in Inr x))"

definition JA :: "vec \<Rightarrow> error + mat" where
  \<comment> \<open>lines 454 to 464\<close>
  "JA x =
     (if x 4 = 0 then Inl FloatDivideByZero
      else
        (let a13 = (x 3 / x 4) * (cos (x 4 * dt + x 2) - cos (x 2));
             a14 = (1.0 / x 4) * (sin (x 4 * dt + x 2) - sin (x 2));
             a15 = (dt * x 3 / x 4) * cos (x 4 * dt + x 2)
                   - (x 3 / x 4 ^ 2) * (sin (x 4 * dt + x 2) - sin (x 2));
             a23 = (x 3 / x 4) * (sin (x 4 * dt + x 2) - sin (x 2));
             a24 = (1.0 / x 4) * (- cos (x 4 * dt + x 2) + cos (x 2));
             a25 = (dt * x 3 / x 4) * sin (x 4 * dt + x 2)
                   - (x 3 / x 4 ^ 2) * (- cos (x 4 * dt + x 2) + cos (x 2))
         in Inr (mat_of [[1, 0, a13, a14, a15],
                         [0, 1, a23, a24, a25],
                         [0, 0, 1, 0, dt],
                         [0, 0, 0, 1, 0],
                         [0, 0, 0, 0, 1]])))"

definition project_cov :: "mat \<Rightarrow> mat \<Rightarrow> mat" where
  \<comment> \<open>line 468\<close>
  "project_cov J P = madd (mmul 5 (mmul 5 J P) (mT J)) Q"

definition time_update :: "vec \<Rightarrow> mat \<Rightarrow> sample \<Rightarrow> error + vec \<times> mat" where
  \<comment> \<open>lines 433 to 468\<close>
  "time_update x P s =
     (case project_state (ddstate s) x of
        Inl e \<Rightarrow> Inl e
      | Inr x1 \<Rightarrow>
          (case JA x1 of
             Inl e \<Rightarrow> Inl e
           | Inr J \<Rightarrow> Inr (x1, project_cov J P)))"

definition innovation_cov :: "mat \<Rightarrow> mat \<Rightarrow> sample \<Rightarrow> mat" where
  \<comment> \<open>line 480, \<open>S\<close>; \<open>Rm\<close> is the measurement noise, \<open>R\<close> in the notebook\<close>
  "innovation_cov Rm P s = madd (mmul 5 (mmul 5 (JH s) P) (mT (JH s))) Rm"

definition kalman_gain :: "mat \<Rightarrow> sample \<Rightarrow> mat \<Rightarrow> mat" where
  \<comment> \<open>line 481, \<open>K\<close>, from the inverse \<open>Si\<close> of \<open>S\<close>\<close>
  "kalman_gain P s Si = mmul 4 (mmul 5 P (mT (JH s))) Si"

definition measurement_update :: "mat \<Rightarrow> vec \<Rightarrow> mat \<Rightarrow> sample \<Rightarrow> error + vec \<times> mat" where
  \<comment> \<open>lines 470 to 487\<close>
  "measurement_update Rm x P s =
     (let hx = vec_of [x 0, x 1, x 3, x 4];
          S = innovation_cov Rm P s
      in case linalg_inv S of
           Inl e \<Rightarrow> Inl e
         | Inr Si \<Rightarrow>
             (let K = kalman_gain P s Si;
                  y = vsub (measurements s) hx;
                  x = vadd x (mvec 4 K y);
                  P = mmul 5 (msub (eye numstates) (mmul 4 K (JH s))) P
              in Inr (x, P)))"

definition filter_step :: "mat \<Rightarrow> vec \<Rightarrow> mat \<Rightarrow> sample \<Rightarrow> real list \<times> (error + vec \<times> mat)" where
  \<comment> \<open>one pass of the loop body on a state and a covariance of real numbers: the row of
      lines 429 and 430, written before anything of the pass can fail, then the outcome
      of the two updates\<close>
  "filter_step Rm x P s =
     (let row = dataout x s
      in (row, case time_update x P s of
                 Inl e \<Rightarrow> Inl e
               | Inr (x1, P1) \<Rightarrow> measurement_update Rm x1 P1 s))"

text \<open>
  A division by zero does not stop the notebook. In the turning branch on a state of
  yaw rate \<open>0.0\<close> the quotients of lines 445, 446 and 454 to 459 are \<^verbatim>\<open>inf\<close> or
  \<^verbatim>\<open>nan\<close>, and each of \<^verbatim>\<open>x[0]\<close>, \<^verbatim>\<open>x[1]\<close> and \<^verbatim>\<open>a13\<close> to \<^verbatim>\<open>a25\<close> holds
  the product of such a quotient with a difference \<open>sin \<psi> - sin \<psi>\<close> or
  \<open>cos \<psi> - cos \<psi>\<close>, which is \<open>0.0\<close>: all of them are \<^verbatim>\<open>nan\<close>. Line 468 carries it
  into rows and columns 0 and 1 of \<^verbatim>\<open>P\<close>, line 480 into every entry of \<^verbatim>\<open>S\<close> (each
  sum has a term \<open>0.0 * nan\<close> or \<open>1.0 * nan\<close>), and lines 481 to 487 into every entry
  of \<^verbatim>\<open>K\<close>, \<^verbatim>\<open>x\<close> and \<^verbatim>\<open>P\<close>; \<^verbatim>\<open>np.linalg.inv\<close> raises on an exactly singular
  matrix only. Every operation of the loop body returns \<^verbatim>\<open>nan\<close> on \<^verbatim>\<open>nan\<close>, and
  the branch test reads the log, so from the end of that pass on the state and the
  covariance hold \<^verbatim>\<open>nan\<close> in every entry, and \<^verbatim>\<open>str(float(wwww))\<close> writes
  \<^verbatim>\<open>nan\<close> for the five state fields of each later row.
\<close>

datatype cell =
    Number real   \<comment> \<open>a field of a written row that holds a number\<close>
  | NaN           \<comment> \<open>a field that reads \<^verbatim>\<open>nan\<close>\<close>

datatype estimate =
    Estimate vec mat   \<comment> \<open>\<^verbatim>\<open>x\<close> and \<^verbatim>\<open>P\<close> between two passes, holding numbers\<close>
  | NotANumber         \<comment> \<open>\<^verbatim>\<open>x\<close> and \<^verbatim>\<open>P\<close> holding \<^verbatim>\<open>nan\<close> in every entry\<close>

definition dataout_nan :: "sample \<Rightarrow> cell list" where
  \<comment> \<open>lines 427 to 430 on a state that holds \<^verbatim>\<open>nan\<close>\<close>
  "dataout_nan s =
     (let Z = measurements s
      in [NaN, NaN, NaN, NaN, NaN, Number (Z 0), Number (Z 1), Number (Z 2), Number (Z 3),
          Number (real (ddstate s)), Number (if GPS s then 1 else 0)])"

text \<open>
  One pass of the loop (lines 412 to 487) on what the loop carries from sample to
  sample: the row is written first; the exception of the inversion leaves the loop,
  a division by zero leaves \<^verbatim>\<open>nan\<close> behind.
\<close>

fun loop_body :: "mat \<Rightarrow> estimate \<Rightarrow> sample \<Rightarrow> cell list \<times> (error + estimate)" where
  "loop_body Rm (Estimate x P) s =
     (let (row, outcome) = filter_step Rm x P s
      in (map Number row,
          case outcome of
            Inr (x2, P2) \<Rightarrow> Inr (Estimate x2 P2)
          | Inl FloatDivideByZero \<Rightarrow> Inr NotANumber
          | Inl LinAlgError \<Rightarrow> Inl LinAlgError))"
| "loop_body Rm NotANumber s = (dataout_nan s, Inr NotANumber)"

text \<open>
  The loop of line 410 over the samples of the log: the rows written, in order, then
  either the exception that ended the run or the estimate after the last sample.
\<close>

fun ekf_loop :: "mat \<Rightarrow> estimate \<Rightarrow> sample list \<Rightarrow> cell list list \<times> (error + estimate)" where
  "ekf_loop Rm e [] = ([], Inr e)"
| "ekf_loop Rm e (s # ss) =
     (let (row, outcome) = loop_body Rm e s
      in case outcome of
           Inl err \<Rightarrow> ([row], Inl err)
         | Inr e' \<Rightarrow>
             (let (rows, final) = ekf_loop Rm e' ss in (row # rows, final)))"

definition ekf :: "sample \<Rightarrow> sample list \<Rightarrow> cell list list \<times> (error + estimate)" where
  \<comment> \<open>the notebook on the log \<open>s # ss\<close>: the state of line 348, the covariance of
      line 124 and the measurement noise of line 282; the rows written, then the
      exception that stopped the loop or the estimate it ended with\<close>
  "ekf s ss = ekf_loop R (Estimate (initial_state s) P0) (s # ss)"

subsection \<open>The symbolic motion model\<close>

definition gs :: "vec \<Rightarrow> vec" where
  \<comment> \<open>lines 77 to 81, with \<open>T\<close> the sample time \<open>dt\<close>; the state is \<open>(x, y, \<psi>, v, \<psi>')\<close>\<close>
  "gs s = vec_of [s 0 + (s 3 / s 4) * (sin (s 2 + s 4 * dt) - sin (s 2)),
                  s 1 + (s 3 / s 4) * (- cos (s 2 + s 4 * dt) + cos (s 2)),
                  s 2 + s 4 * dt,
                  s 3,
                  s 4]"

subsection \<open>Observations of one pass\<close>

definition predicted :: "vec \<Rightarrow> mat \<Rightarrow> sample \<Rightarrow> nat \<Rightarrow> error + real" where
  \<comment> \<open>component \<open>i\<close> of the state after the time update\<close>
  "predicted x P s i =
     (case time_update x P s of Inl e \<Rightarrow> Inl e | Inr (x1, P1) \<Rightarrow> Inr (x1 i))"

definition corrected :: "mat \<Rightarrow> vec \<Rightarrow> mat \<Rightarrow> sample \<Rightarrow> nat \<Rightarrow> error + real" where
  \<comment> \<open>component \<open>i\<close> of the state after the whole pass\<close>
  "corrected Rm x P s i =
     (case snd (filter_step Rm x P s) of Inl e \<Rightarrow> Inl e | Inr (x2, P2) \<Rightarrow> Inr (x2 i))"

definition corrected_cov :: "mat \<Rightarrow> vec \<Rightarrow> mat \<Rightarrow> sample \<Rightarrow> nat \<Rightarrow> nat \<Rightarrow> error + real" where
  \<comment> \<open>entry \<open>(i, j)\<close> of the covariance after the whole pass\<close>
  "corrected_cov Rm x P s i j =
     (case snd (filter_step Rm x P s) of Inl e \<Rightarrow> Inl e | Inr (x2, P2) \<Rightarrow> Inr (P2 i j))"

definition written :: "mat \<Rightarrow> vec \<Rightarrow> mat \<Rightarrow> sample \<Rightarrow> real list" where
  \<comment> \<open>the row written by the pass, whatever becomes of its updates\<close>
  "written Rm x P s = fst (filter_step Rm x P s)"

section \<open>The time update\<close>

lemma lt5: "(i::nat) < 5 \<Longrightarrow> i = 0 \<or> i = 1 \<or> i = 2 \<or> i = 3 \<or> i = 4"
  by arith

lemma lt4: "(i::nat) < 4 \<Longrightarrow> i = 0 \<or> i = 1 \<or> i = 2 \<or> i = 3"
  by arith

lemma pymod_range: "0 < b \<Longrightarrow> 0 \<le> pymod a b \<and> pymod a b < b"
proof -
  assume b: "0 < b"
  have "of_int \<lfloor>a / b\<rfloor> * b \<le> (a / b) * b"
    by (rule mult_right_mono) (use b in simp_all)
  then have 1: "of_int \<lfloor>a / b\<rfloor> * b \<le> a" using b by simp
  have "a / b < of_int \<lfloor>a / b\<rfloor> + 1" by linarith
  then have "(a / b) * b < (of_int \<lfloor>a / b\<rfloor> + 1) * b"
    using b by (simp only: mult_less_cancel_right_pos)
  then have 2: "a < (of_int \<lfloor>a / b\<rfloor> + 1) * b" using b by simp
  from 1 2 show ?thesis by (simp add: pymod_def algebra_simps)
qed

lemma wrap_range: "- pi \<le> pymod (a + pi) (2 * pi) - pi \<and> pymod (a + pi) (2 * pi) - pi < pi"
  using pymod_range [of "2 * pi" "a + pi"] by simp

lemma wrap_congruent: "\<exists>k::int. pymod (a + pi) (2 * pi) - pi = a - 2 * pi * of_int k"
  by (rule exI [of _ "\<lfloor>(a + pi) / (2 * pi)\<rfloor>"]) (simp add: pymod_def)

lemma JA_entries:
  assumes "JA x = Inr J"
  shows "x 4 \<noteq> 0"
    and "J = mat_of [[1, 0, (x 3 / x 4) * (cos (x 4 * dt + x 2) - cos (x 2)),
                      (1 / x 4) * (sin (x 4 * dt + x 2) - sin (x 2)),
                      (dt * x 3 / x 4) * cos (x 4 * dt + x 2)
                        - (x 3 / x 4 ^ 2) * (sin (x 4 * dt + x 2) - sin (x 2))],
                     [0, 1, (x 3 / x 4) * (sin (x 4 * dt + x 2) - sin (x 2)),
                      (1 / x 4) * (- cos (x 4 * dt + x 2) + cos (x 2)),
                      (dt * x 3 / x 4) * sin (x 4 * dt + x 2)
                        - (x 3 / x 4 ^ 2) * (- cos (x 4 * dt + x 2) + cos (x 2))],
                     [0, 0, 1, 0, dt],
                     [0, 0, 0, 1, 0],
                     [0, 0, 0, 0, 1]]"
  using assms by (auto simp: JA_def Let_def split: if_splits)

lemma JA_defined: "x 4 \<noteq> 0 \<Longrightarrow> \<exists>J. JA x = Inr J"
  by (simp add: JA_def Let_def)

lemma time_update_straight:
  assumes "\<bar>yawrate s\<bar> < 0.0001"
  shows "\<exists>x1 J. time_update x P s = Inr (x1, project_cov J P) \<and> JA x1 = Inr J
           \<and> x1 0 = x 0 + x 3 * dt * cos (x 2) \<and> x1 1 = x 1 + x 3 * dt * sin (x 2)
           \<and> x1 2 = x 2 \<and> x1 3 = x 3 \<and> x1 4 = 0.0000001"
  using assms
  by (simp add: time_update_def project_state_def ddstate_def JA_def Let_def)

lemma time_update_turning:
  assumes "\<not> \<bar>yawrate s\<bar> < 0.0001" and "x 4 \<noteq> 0"
  shows "\<exists>x1 J. time_update x P s = Inr (x1, project_cov J P) \<and> JA x1 = Inr J
           \<and> x1 0 = x 0 + (x 3 / x 4) * (sin (x 4 * dt + x 2) - sin (x 2))
           \<and> x1 1 = x 1 + (x 3 / x 4) * (- cos (x 4 * dt + x 2) + cos (x 2))
           \<and> x1 2 = pymod (x 2 + x 4 * dt + pi) (2 * pi) - pi
           \<and> x1 3 = x 3 \<and> x1 4 = x 4"
  using assms
  by (simp add: time_update_def project_state_def ddstate_def JA_def Let_def)

lemma time_update_zero_rate:
  assumes "\<not> \<bar>yawrate s\<bar> < 0.0001" and "x 4 = 0"
  shows "time_update x P s = Inl FloatDivideByZero"
  using assms
  by (simp add: time_update_def project_state_def ddstate_def)

subsection \<open>The entries of \<open>JA\<close> are the partial derivatives of \<open>gs\<close>\<close>

lemma d_row0:
  assumes "JA x = Inr J" "j < 5"
  shows "((\<lambda>t. gs (x(j := t)) 0) has_real_derivative J 0 j) (at (x j))"
proof -
  note E = JA_entries[OF assms(1)]
  from lt5[OF assms(2)] show ?thesis
  proof (elim disjE)
    assume "j = 0" then show ?thesis using E(1)
      by (auto simp: E(2) gs_def vec_of_def mat_of_def intro!: derivative_eq_intros)
  next
    assume "j = 1" then show ?thesis using E(1)
      by (auto simp: E(2) gs_def vec_of_def mat_of_def intro!: derivative_eq_intros)
  next
    assume "j = 2" then show ?thesis using E(1)
      by (auto simp: E(2) gs_def vec_of_def mat_of_def algebra_simps intro!: derivative_eq_intros)
  next
    assume "j = 3" then show ?thesis using E(1)
      by (auto simp: E(2) gs_def vec_of_def mat_of_def algebra_simps intro!: derivative_eq_intros)
  next
    assume "j = 4" then show ?thesis using E(1)
      by (auto simp: E(2) gs_def vec_of_def mat_of_def  power2_eq_square field_simps intro!: derivative_eq_intros)
  qed
qed

lemma d_row1:
  assumes "JA x = Inr J" "j < 5"
  shows "((\<lambda>t. gs (x(j := t)) 1) has_real_derivative J 1 j) (at (x j))"
proof -
  note E = JA_entries[OF assms(1)]
  from lt5[OF assms(2)] show ?thesis
  proof (elim disjE)
    assume "j = 0" then show ?thesis using E(1)
      by (auto simp: E(2) gs_def vec_of_def mat_of_def algebra_simps intro!: derivative_eq_intros)
  next
    assume "j = 1" then show ?thesis using E(1)
      by (auto simp: E(2) gs_def vec_of_def mat_of_def algebra_simps intro!: derivative_eq_intros)
  next
    assume "j = 2" then show ?thesis using E(1)
      by (auto simp: E(2) gs_def vec_of_def mat_of_def algebra_simps intro!: derivative_eq_intros)
  next
    assume "j = 3" then show ?thesis using E(1)
      by (auto simp: E(2) gs_def vec_of_def mat_of_def algebra_simps intro!: derivative_eq_intros)
  next
    assume "j = 4" then show ?thesis using E(1)
      by (auto simp: E(2) gs_def vec_of_def mat_of_def power2_eq_square field_simps intro!: derivative_eq_intros)
  qed
qed

lemma d_row2:
  assumes "JA x = Inr J" "j < 5"
  shows "((\<lambda>t. gs (x(j := t)) 2) has_real_derivative J 2 j) (at (x j))"
proof -
  note E = JA_entries[OF assms(1)]
  from lt5[OF assms(2)] show ?thesis
  proof (elim disjE)
    assume "j = 0" then show ?thesis using E(1)
      by (auto simp: E(2) gs_def vec_of_def mat_of_def algebra_simps intro!: derivative_eq_intros)
  next
    assume "j = 1" then show ?thesis using E(1)
      by (auto simp: E(2) gs_def vec_of_def mat_of_def algebra_simps intro!: derivative_eq_intros)
  next
    assume "j = 2" then show ?thesis using E(1)
      by (auto simp: E(2) gs_def vec_of_def mat_of_def algebra_simps intro!: derivative_eq_intros)
  next
    assume "j = 3" then show ?thesis using E(1)
      by (auto simp: E(2) gs_def vec_of_def mat_of_def algebra_simps intro!: derivative_eq_intros)
  next
    assume "j = 4" then show ?thesis using E(1)
      by (auto simp: E(2) gs_def vec_of_def mat_of_def power2_eq_square field_simps intro!: derivative_eq_intros)
  qed
qed

lemma d_row3:
  assumes "JA x = Inr J" "j < 5"
  shows "((\<lambda>t. gs (x(j := t)) 3) has_real_derivative J 3 j) (at (x j))"
proof -
  note E = JA_entries[OF assms(1)]
  from lt5[OF assms(2)] show ?thesis
  proof (elim disjE)
    assume "j = 0" then show ?thesis using E(1)
      by (auto simp: E(2) gs_def vec_of_def mat_of_def algebra_simps intro!: derivative_eq_intros)
  next
    assume "j = 1" then show ?thesis using E(1)
      by (auto simp: E(2) gs_def vec_of_def mat_of_def algebra_simps intro!: derivative_eq_intros)
  next
    assume "j = 2" then show ?thesis using E(1)
      by (auto simp: E(2) gs_def vec_of_def mat_of_def algebra_simps intro!: derivative_eq_intros)
  next
    assume "j = 3" then show ?thesis using E(1)
      by (auto simp: E(2) gs_def vec_of_def mat_of_def algebra_simps intro!: derivative_eq_intros)
  next
    assume "j = 4" then show ?thesis using E(1)
      by (auto simp: E(2) gs_def vec_of_def mat_of_def power2_eq_square field_simps intro!: derivative_eq_intros)
  qed
qed

lemma d_row4:
  assumes "JA x = Inr J" "j < 5"
  shows "((\<lambda>t. gs (x(j := t)) 4) has_real_derivative J 4 j) (at (x j))"
proof -
  note E = JA_entries[OF assms(1)]
  from lt5[OF assms(2)] show ?thesis
  proof (elim disjE)
    assume "j = 0" then show ?thesis using E(1)
      by (auto simp: E(2) gs_def vec_of_def mat_of_def algebra_simps intro!: derivative_eq_intros)
  next
    assume "j = 1" then show ?thesis using E(1)
      by (auto simp: E(2) gs_def vec_of_def mat_of_def algebra_simps intro!: derivative_eq_intros)
  next
    assume "j = 2" then show ?thesis using E(1)
      by (auto simp: E(2) gs_def vec_of_def mat_of_def algebra_simps intro!: derivative_eq_intros)
  next
    assume "j = 3" then show ?thesis using E(1)
      by (auto simp: E(2) gs_def vec_of_def mat_of_def algebra_simps intro!: derivative_eq_intros)
  next
    assume "j = 4" then show ?thesis using E(1)
      by (auto simp: E(2) gs_def vec_of_def mat_of_def power2_eq_square field_simps intro!: derivative_eq_intros)
  qed
qed


lemma JA_structure:
  assumes "JA x = Inr J"
  shows "J 0 0 = 1 \<and> J 1 1 = 1 \<and> J 2 2 = 1 \<and> J 3 3 = 1 \<and> J 4 4 = 1 \<and> J 2 4 = dt
       \<and> J 0 1 = 0 \<and> J 1 0 = 0
       \<and> J 2 0 = 0 \<and> J 2 1 = 0 \<and> J 2 3 = 0
       \<and> J 3 0 = 0 \<and> J 3 1 = 0 \<and> J 3 2 = 0 \<and> J 3 4 = 0
       \<and> J 4 0 = 0 \<and> J 4 1 = 0 \<and> J 4 2 = 0 \<and> J 4 3 = 0"
  by (simp add: JA_entries(2) [OF assms] mat_of_def)

section \<open>Linear algebra of the measurement update\<close>

subsection \<open>The cofactor inverse\<close>

lemma sum4: "(\<Sum>k<4. f k) = f 0 + f 1 + f 2 + f (3::nat)"
  by (simp add: numeral_eq_Suc)

lemma sum5: "(\<Sum>k<5. f k) = f 0 + f 1 + f 2 + f 3 + f (4::nat)"
  by (simp add: numeral_eq_Suc)

lemma minor4_simps:
  "minor4 A r c i j = A (if i < r then i else Suc i) (if j < c then j else Suc j)"
  by (simp add: minor4_def)

lemma adj_right:
  assumes "i < 4" "j < 4"
  shows "(\<Sum>k<4. A i k * ((- 1) ^ (k + j) * det3 (minor4 A j k))) = (if i = j then det4 A else 0)"
  using lt4 [OF assms(1)] lt4 [OF assms(2)]
  apply (elim disjE)
  apply (simp_all add: sum4 det4_def det3_def minor4_def eval_nat_numeral)
  apply (simp_all add: algebra_simps)
  done

lemma linalg_inv_right:
  assumes "linalg_inv S = Inr Si" "i < 4" "j < 4"
  shows "mmul 4 S Si i j = eye 4 i j"
proof -
  from assms(1) have d: "det4 S \<noteq> 0"
    and Si: "Si = (\<lambda>i j. if i < 4 \<and> j < 4
                       then (- 1) ^ (i + j) * det3 (minor4 S j i) / det4 S else 0)"
    by (auto simp: linalg_inv_def split: if_splits)
  have "mmul 4 S Si i j = (\<Sum>k<4. S i k * ((- 1) ^ (k + j) * det3 (minor4 S j k) / det4 S))"
    using assms(3) by (simp add: mmul_def Si)
  also have "\<dots> = (\<Sum>k<4. S i k * ((- 1) ^ (k + j) * det3 (minor4 S j k))) / det4 S"
    by (simp add: sum_divide_distrib)
  also have "\<dots> = eye 4 i j"
    using d assms(2,3) by (simp add: adj_right eye_def)
  finally show ?thesis .
qed

lemma det3_cong:
  assumes "\<And>i j. i < 3 \<Longrightarrow> j < 3 \<Longrightarrow> M i j = N i j"
  shows "det3 M = det3 N"
  by (simp add: det3_def assms)

lemma det3_transpose: "det3 (mT M) = det3 M"
  by (simp add: det3_def mT_def algebra_simps)

lemma minor4_symmetric:
  assumes "symmetric 4 S" "i < 4" "j < 4"
  shows "det3 (minor4 S i j) = det3 (minor4 S j i)"
proof -
  have "det3 (minor4 S i j) = det3 (mT (minor4 S j i))"
  proof (rule det3_cong)
    fix r c :: nat
    assume "r < 3" "c < 3"
    then have "(if r < i then r else Suc r) < 4" "(if c < j then c else Suc c) < 4"
      by auto
    with assms(1) show "minor4 S i j r c = mT (minor4 S j i) r c"
      by (simp add: minor4_def mT_def symmetric_def)
  qed
  then show ?thesis by (simp add: det3_transpose)
qed

lemma linalg_inv_symmetric:
  assumes "linalg_inv S = Inr Si" "symmetric 4 S"
  shows "symmetric 4 Si"
proof -
  from assms(1) have
    Si: "Si = (\<lambda>i j. if i < 4 \<and> j < 4
                       then (- 1) ^ (i + j) * det3 (minor4 S j i) / det4 S else 0)"
    by (auto simp: linalg_inv_def split: if_splits)
  show ?thesis
    unfolding symmetric_def
  proof (intro allI impI)
    fix i j :: nat
    assume "i < 4" "j < 4"
    then show "Si i j = Si j i"
      using minor4_symmetric [OF assms(2), of i j] by (simp add: Si add.commute)
  qed
qed

subsection \<open>Products, quadratic forms\<close>

lemma dot_mvec: "dot n u (mvec m A w) = dot m (mvec n (mT A) u) w"
proof -
  have "dot n u (mvec m A w) = (\<Sum>i<n. \<Sum>k<m. u i * (A i k * w k))"
    by (simp add: dot_def mvec_def sum_distrib_left)
  also have "\<dots> = (\<Sum>k<m. \<Sum>i<n. u i * (A i k * w k))"
    by (rule sum.swap)
  also have "\<dots> = dot m (mvec n (mT A) u) w"
    by (simp add: dot_def mvec_def mT_def sum_distrib_left sum_distrib_right mult_ac)
  finally show ?thesis .
qed

lemma mvec_mmul: "mvec m (mmul n A B) v = mvec n A (mvec m B v)"
proof
  fix i
  have "mvec m (mmul n A B) v i = (\<Sum>j<m. \<Sum>k<n. A i k * B k j * v j)"
    by (simp add: mvec_def mmul_def sum_distrib_right)
  also have "\<dots> = (\<Sum>k<n. \<Sum>j<m. A i k * B k j * v j)"
    by (rule sum.swap)
  also have "\<dots> = mvec n A (mvec m B v) i"
    by (simp add: mvec_def sum_distrib_left mult.assoc)
  finally show "mvec m (mmul n A B) v i = mvec n A (mvec m B v) i" .
qed

lemma mvec_madd: "mvec n (madd A B) v = vadd (mvec n A v) (mvec n B v)"
  by (simp add: mvec_def madd_def vadd_def algebra_simps sum.distrib)

lemma mvec_msub: "mvec n (msub A B) v = vsub (mvec n A v) (mvec n B v)"
  by (simp add: mvec_def msub_def vsub_def algebra_simps sum_subtractf)

lemma mvec_vsub: "mvec n A (vsub u v) = vsub (mvec n A u) (mvec n A v)"
  by (simp add: mvec_def vsub_def algebra_simps sum_subtractf)

lemma dot_vadd_right: "dot n u (vadd v w) = dot n u v + dot n u w"
  by (simp add: dot_def vadd_def algebra_simps sum.distrib)

lemma dot_vsub_right: "dot n u (vsub v w) = dot n u v - dot n u w"
  by (simp add: dot_def vsub_def algebra_simps sum_subtractf)

lemma dot_vsub_left: "dot n (vsub u v) w = dot n u w - dot n v w"
  by (simp add: dot_def vsub_def algebra_simps sum_subtractf)

lemma dot_cong: "(\<And>k. k < n \<Longrightarrow> v k = w k) \<Longrightarrow> dot n u v = dot n u w"
  by (simp add: dot_def)

lemma mvec_eye: "i < n \<Longrightarrow> mvec n (eye n) v i = v i"
proof -
  assume i: "i < n"
  have "mvec n (eye n) v i = (\<Sum>k<n. if k = i then v k else 0)"
    unfolding mvec_def eye_def using i by (intro sum.cong) auto
  also have "\<dots> = v i" using i by simp
  finally show ?thesis .
qed

lemma qf_project_cov: "qf 5 (project_cov J P) v = qf 5 P (mvec 5 (mT J) v) + qf 5 Q v"
  by (simp add: qf_def project_cov_def mvec_madd mvec_mmul dot_vadd_right dot_mvec [of 5 v 5 J])

subsection \<open>Symmetric and positive semidefinite matrices\<close>

lemma pd_imp_psd: "pd n M \<Longrightarrow> psd n M"
  unfolding pd_def psd_def
proof
  fix v
  assume pd: "\<forall>v. (\<exists>i<n. v i \<noteq> 0) \<longrightarrow> 0 < qf n M v"
  show "0 \<le> qf n M v"
  proof (cases "\<exists>i<n. v i \<noteq> 0")
    case True
    with pd have "0 < qf n M v" by blast
    then show ?thesis by simp
  next
    case False
    then have "qf n M v = 0" by (simp add: qf_def dot_def)
    then show ?thesis by simp
  qed
qed


lemma Q_off: "i \<noteq> j \<Longrightarrow> Q i j = 0"
  by (simp add: Q_def diag_of_def Let_def)

lemma Q_nonneg: "0 \<le> Q i i"
  by (simp add: Q_def diag_of_def Let_def nth_Cons split: nat.splits)

lemma symmetric_Q: "symmetric 5 Q"
  unfolding symmetric_def using Q_off by metis

lemma mvec_Q:
  assumes "i < 5"
  shows "mvec 5 Q v i = Q i i * v i"
proof -
  have "mvec 5 Q v i = (\<Sum>k<5. if k = i then Q i i * v i else 0)"
    unfolding mvec_def by (intro sum.cong) (auto simp: Q_off)
  also have "\<dots> = Q i i * v i" using assms by simp
  finally show ?thesis .
qed

lemma psd_Q: "psd 5 Q"
  unfolding psd_def
proof
  fix v
  have "qf 5 Q v = (\<Sum>i<5. Q i i * (v i * v i))"
    unfolding qf_def dot_def by (intro sum.cong) (simp_all add: mvec_Q mult_ac)
  also have "0 \<le> \<dots>"
    by (rule sum_nonneg) (simp add: Q_nonneg)
  finally show "0 \<le> qf 5 Q v" .
qed

lemma sandwich_symmetric:
  assumes "symmetric n P"
  shows "mmul n (mmul n A P) (mT A) i j = mmul n (mmul n A P) (mT A) j i"
proof -
  have "mmul n (mmul n A P) (mT A) i j = (\<Sum>l<n. \<Sum>k<n. A i k * P k l * A j l)"
    by (simp add: mmul_def mT_def sum_distrib_right)
  also have "\<dots> = (\<Sum>l<n. \<Sum>k<n. A j l * P l k * A i k)"
    using assms by (intro sum.cong refl) (simp add: symmetric_def mult_ac)
  also have "\<dots> = (\<Sum>k<n. \<Sum>l<n. A j l * P l k * A i k)"
    by (rule sum.swap)
  also have "\<dots> = mmul n (mmul n A P) (mT A) j i"
    by (simp add: mmul_def mT_def sum_distrib_right)
  finally show ?thesis .
qed

lemma symmetric_project_cov:
  assumes "symmetric 5 P"
  shows "symmetric 5 (project_cov J P)"
  unfolding symmetric_def project_cov_def madd_def
  using sandwich_symmetric [OF assms, of J] symmetric_Q
  by (simp add: symmetric_def)

lemma psd_project_cov:
  assumes "psd 5 P"
  shows "psd 5 (project_cov J P)"
  using assms psd_Q unfolding psd_def
  by (simp add: qf_project_cov add_nonneg_nonneg)

subsection \<open>The covariance after the correction\<close>

lemma mvec_cong: "(\<And>k. k < n \<Longrightarrow> v k = w k) \<Longrightarrow> mvec n A v = mvec n A w"
  by (simp add: mvec_def)

lemma mvec_eye_general:
  assumes "\<And>i j. i < n \<Longrightarrow> j < n \<Longrightarrow> M i j = eye n i j" "i < n"
  shows "mvec n M v i = v i"
proof -
  have "mvec n M v i = mvec n (eye n) v i"
    unfolding mvec_def using assms by (intro sum.cong) auto
  then show ?thesis using assms(2) by (simp add: mvec_eye)
qed

lemma correction_qf:
  fixes H P Rm Si :: mat and v :: vec
  assumes inv: "\<And>i j. i < 4 \<Longrightarrow> j < 4
      \<Longrightarrow> mmul 4 (madd (mmul 5 (mmul 5 H P) (mT H)) Rm) Si i j = eye 4 i j"
  shows "\<exists>t w. qf 5 (mmul 5 (msub (eye 5) (mmul 4 (mmul 4 (mmul 5 P (mT H)) Si) H)) P) v
               = qf 5 P (vsub v t) + qf 4 Rm w"
proof -
  define S where "S = madd (mmul 5 (mmul 5 H P) (mT H)) Rm"
  define K where "K = mmul 4 (mmul 5 P (mT H)) Si"
  define Pn where "Pn = mmul 5 (msub (eye 5) (mmul 4 K H)) P"
  define u where "u = mvec 5 H (mvec 5 P v)"
  define w where "w = mvec 4 Si u"
  define t where "t = mvec 4 (mT H) w"
  have Ku: "mvec 4 K u = mvec 5 P t"
    by (simp add: K_def mvec_mmul w_def t_def)
  have Pnv: "mvec 5 Pn v i = mvec 5 P (vsub v t) i" if "i < 5" for i
  proof -
    have "mvec 5 Pn v i = mvec 5 (eye 5) (mvec 5 P v) i - mvec 4 K u i"
      by (simp add: Pn_def mvec_mmul mvec_msub vsub_def u_def)
    also have "\<dots> = mvec 5 P v i - mvec 5 P t i"
      using that by (simp add: mvec_eye Ku)
    finally show ?thesis unfolding mvec_vsub by (simp add: vsub_def)
  qed
  have Sw: "mvec 4 S w i = u i" if "i < 4" for i
  proof -
    have "mvec 4 S w = mvec 4 (mmul 4 S Si) u"
      by (simp add: w_def mvec_mmul)
    moreover have "mvec 4 (mmul 4 S Si) u i = u i"
      using inv that by (intro mvec_eye_general) (simp_all add: S_def)
    ultimately show ?thesis by simp
  qed
  have HPt: "mvec 5 H (mvec 5 P t) = vsub (mvec 4 S w) (mvec 4 Rm w)"
    by (simp add: t_def S_def mvec_madd mvec_mmul vadd_def vsub_def)
  have rest: "mvec 5 H (mvec 5 P (vsub v t)) i = mvec 4 Rm w i" if "i < 4" for i
    using Sw [OF that] unfolding mvec_vsub HPt u_def [symmetric] by (simp add: vsub_def)
  have "qf 5 Pn v = dot 5 v (mvec 5 P (vsub v t))"
    unfolding qf_def by (rule dot_cong) (rule Pnv)
  also have "\<dots> = dot 5 (vsub v t) (mvec 5 P (vsub v t)) + dot 5 t (mvec 5 P (vsub v t))"
    by (simp add: dot_vsub_left)
  also have "dot 5 t (mvec 5 P (vsub v t)) = dot 4 w (mvec 5 H (mvec 5 P (vsub v t)))"
    by (simp add: t_def dot_mvec [of 4 w 5 H])
  also have "\<dots> = dot 4 w (mvec 4 Rm w)"
    by (rule dot_cong) (rule rest)
  finally have "qf 5 Pn v = qf 5 P (vsub v t) + qf 4 Rm w"
    by (simp add: qf_def)
  then show ?thesis unfolding Pn_def K_def by blast
qed

lemma correction_psd:
  fixes H P Rm Si :: mat
  assumes inv: "\<And>i j. i < 4 \<Longrightarrow> j < 4
      \<Longrightarrow> mmul 4 (madd (mmul 5 (mmul 5 H P) (mT H)) Rm) Si i j = eye 4 i j"
    and "psd 5 P" "psd 4 Rm"
  shows "psd 5 (mmul 5 (msub (eye 5) (mmul 4 (mmul 4 (mmul 5 P (mT H)) Si) H)) P)"
  unfolding psd_def
proof
  fix v
  from correction_qf [OF inv, of v] obtain t w where
    "qf 5 (mmul 5 (msub (eye 5) (mmul 4 (mmul 4 (mmul 5 P (mT H)) Si) H)) P) v
       = qf 5 P (vsub v t) + qf 4 Rm w"
    by blast
  with assms(2,3) show "0 \<le> qf 5 (mmul 5 (msub (eye 5) (mmul 4 (mmul 4 (mmul 5 P (mT H)) Si) H)) P) v"
    by (simp add: psd_def)
qed

lemma correction_symmetric:
  fixes H P Si :: mat
  assumes "symmetric 5 P" "symmetric 4 Si"
  shows "symmetric 5 (mmul 5 (msub (eye 5) (mmul 4 (mmul 4 (mmul 5 P (mT H)) Si) H)) P)"
proof -
  define G where "G = mmul 5 H P"
  define K where "K = mmul 4 (mmul 5 P (mT H)) Si"
  define M where "M = (\<lambda>i j. \<Sum>a<4. \<Sum>b<4. G b i * Si b a * G a j)"
  have PH: "mmul 5 P (mT H) i b = G b i" if "i < 5" for i b
    unfolding mmul_def mT_def G_def using assms(1) that
    by (intro sum.cong refl) (simp add: symmetric_def mult.commute)
  have Kia: "K i a = (\<Sum>b<4. G b i * Si b a)" if "i < 5" for i a
    unfolding K_def mmul_def [of 4] using PH [OF that] by simp
  have entry: "mmul 5 (msub (eye 5) (mmul 4 K H)) P i j = P i j - M i j" if "i < 5" for i j
  proof -
    have "mmul 5 (msub (eye 5) (mmul 4 K H)) P i j
        = mvec 5 (eye 5) (\<lambda>k. P k j) i - (\<Sum>k<5. mmul 4 K H i k * P k j)"
      by (simp add: mmul_def [of 5] msub_def mvec_def algebra_simps sum_subtractf)
    also have "(\<Sum>k<5. mmul 4 K H i k * P k j) = (\<Sum>k<5. \<Sum>a<4. K i a * (H a k * P k j))"
      by (simp add: mmul_def [of 4] sum_distrib_right mult.assoc)
    also have "\<dots> = (\<Sum>a<4. \<Sum>k<5. K i a * (H a k * P k j))"
      by (rule sum.swap)
    also have "\<dots> = (\<Sum>a<4. K i a * G a j)"
      by (simp add: G_def mmul_def [of 5] sum_distrib_left)
    also have "\<dots> = M i j"
      by (simp add: Kia [OF that] M_def sum_distrib_right)
    finally show ?thesis using that by (simp add: mvec_eye)
  qed
  have Msym: "M i j = M j i" for i j
  proof -
    have "M i j = (\<Sum>a<4. \<Sum>b<4. G a j * Si a b * G b i)"
      unfolding M_def using assms(2)
      by (intro sum.cong refl) (simp add: symmetric_def mult_ac)
    also have "\<dots> = (\<Sum>b<4. \<Sum>a<4. G a j * Si a b * G b i)"
      by (rule sum.swap)
    finally show ?thesis by (simp add: M_def)
  qed
  show ?thesis
    unfolding symmetric_def K_def [symmetric]
    using entry assms(1) Msym by (simp add: symmetric_def)
qed

lemma symmetric_S:
  assumes "symmetric 5 P" "symmetric 4 Rm"
  shows "symmetric 4 (madd (mmul 5 (mmul 5 H P) (mT H)) Rm)"
  unfolding symmetric_def madd_def
  using sandwich_symmetric [OF assms(1), of H] assms(2)
  by (simp add: symmetric_def)

subsection \<open>A positive definite matrix has an inverse\<close>

lemma pdD: "pd n M \<Longrightarrow> i < n \<Longrightarrow> v i \<noteq> 0 \<Longrightarrow> 0 < qf n M v"
  by (auto simp: pd_def)

lemma pd_diag_pos:
  assumes "pd 4 S" "i < 4"
  shows "0 < S i i"
proof -
  let ?e = "\<lambda>k. if k = i then 1 else (0::real)"
  have "qf 4 S ?e = (\<Sum>k<4. if k = i then mvec 4 S ?e k else 0)"
    unfolding qf_def dot_def by (intro sum.cong) auto
  also have "\<dots> = mvec 4 S ?e i" using assms(2) by simp
  also have "\<dots> = (\<Sum>k<4. if k = i then S i k else 0)"
    unfolding mvec_def by (intro sum.cong) auto
  also have "\<dots> = S i i" using assms(2) by simp
  finally have "qf 4 S ?e = S i i" .
  moreover have "0 < qf 4 S ?e"
    using pdD [OF assms, of ?e] by simp
  ultimately show ?thesis by simp
qed

lemma pd_det2:
  assumes "pd 4 S"
  shows "S 0 0 * S 1 1 - S 0 1 * S 1 0 \<noteq> 0"
proof
  assume z: "S 0 0 * S 1 1 - S 0 1 * S 1 0 = 0"
  let ?c = "vec_of [S 1 1, - S 1 0, 0, 0]"
  have "qf 4 S ?c = S 1 1 * (S 0 0 * S 1 1 - S 0 1 * S 1 0)"
    by (simp add: qf_def dot_def mvec_def sum4 vec_of_def algebra_simps)
  with z have "qf 4 S ?c = 0" by simp
  moreover have "?c 0 \<noteq> 0" using pd_diag_pos [OF assms, of 1] by (simp add: vec_of_def)
  ultimately show False using pdD [OF assms, of 0 ?c] by simp
qed

lemma pd_det3:
  assumes "pd 4 S"
  shows "det3 (minor4 S 3 3) \<noteq> 0"
proof
  assume z: "det3 (minor4 S 3 3) = 0"
  let ?c = "vec_of [S 1 0 * S 2 1 - S 1 1 * S 2 0, - (S 0 0 * S 2 1 - S 0 1 * S 2 0),
                    S 0 0 * S 1 1 - S 0 1 * S 1 0, 0]"
  have "qf 4 S ?c = (S 0 0 * S 1 1 - S 0 1 * S 1 0) * det3 (minor4 S 3 3)"
    by (simp add: qf_def dot_def mvec_def sum4 vec_of_def det3_def minor4_def algebra_simps)
  with z have "qf 4 S ?c = 0" by simp
  moreover have "?c 2 \<noteq> 0" using pd_det2 [OF assms] by (simp add: vec_of_def)
  ultimately show False using pdD [OF assms, of 2 ?c] by simp
qed

lemma pd_det4:
  assumes "pd 4 S"
  shows "det4 S \<noteq> 0"
proof
  assume z: "det4 S = 0"
  let ?c = "\<lambda>k::nat. (- 1) ^ (k + 3) * det3 (minor4 S 3 k)"
  have Sc: "mvec 4 S ?c i = (if i = 3 then det4 S else 0)" if "i < 4" for i
    unfolding mvec_def using adj_right [of i 3 S] that by simp
  have "qf 4 S ?c = (\<Sum>i<4. ?c i * (if i = 3 then det4 S else 0))"
    unfolding qf_def dot_def by (intro sum.cong refl) (simp add: Sc)
  also have "\<dots> = 0" by (simp add: sum4 z)
  finally have "qf 4 S ?c = 0" .
  moreover have "?c 3 \<noteq> 0" using pd_det3 [OF assms] by simp
  ultimately show False using pdD [OF assms, of 3 ?c] by simp
qed

lemma qf_innovation:
  "qf 4 (innovation_cov Rm P s) v = qf 5 P (mvec 4 (mT (JH s)) v) + qf 4 Rm v"
  by (simp add: qf_def innovation_cov_def mvec_madd mvec_mmul dot_vadd_right
      dot_mvec [of 4 v 5 "JH s"])

lemma innovation_pd:
  assumes "psd 5 P" "pd 4 Rm"
  shows "pd 4 (innovation_cov Rm P s)"
  unfolding pd_def
proof (intro allI impI)
  fix v :: vec
  assume "\<exists>i<4. v i \<noteq> 0"
  with assms(2) have "0 < qf 4 Rm v" by (simp add: pd_def)
  moreover from assms(1) have "0 \<le> qf 5 P (mvec 4 (mT (JH s)) v)" by (simp add: psd_def)
  ultimately show "0 < qf 4 (innovation_cov Rm P s) v"
    by (simp add: qf_innovation)
qed

lemma Q_pos: "i < 5 \<Longrightarrow> 0 < Q i i"
  using lt5 [of i] by (auto simp: Q_def diag_of_def Let_def dt_def)

lemma pd_Q: "pd 5 Q"
  unfolding pd_def
proof (intro allI impI)
  fix v :: vec
  assume "\<exists>i<5. v i \<noteq> 0"
  then obtain i where i: "i < 5" "v i \<noteq> 0" by blast
  have eq: "qf 5 Q v = (\<Sum>k<5. Q k k * (v k * v k))"
    unfolding qf_def dot_def by (intro sum.cong) (simp_all add: mvec_Q mult_ac)
  have "0 < (v i)\<^sup>2" using i(2) by simp
  then have "0 < v i * v i" by (simp only: power2_eq_square)
  then have "0 < Q i i * (v i * v i)"
    using Q_pos [OF i(1)] by (rule mult_pos_pos [rotated])
  moreover have "0 \<le> (\<Sum>k\<in>{..<5} - {i}. Q k k * (v k * v k))"
    by (rule sum_nonneg) (simp add: Q_nonneg)
  moreover have "(\<Sum>k<5. Q k k * (v k * v k))
      = Q i i * (v i * v i) + (\<Sum>k\<in>{..<5} - {i}. Q k k * (v k * v k))"
    using i(1) by (intro sum.remove) simp_all
  ultimately show "0 < qf 5 Q v" using eq by linarith
qed

lemma mvec_JH_fix:
  assumes "GPS s"
  shows "mvec 4 (mT (JH s)) v = vec_of [v 0, v 1, 0, v 2, v 3]"
proof
  fix i
  show "mvec 4 (mT (JH s)) v i = vec_of [v 0, v 1, 0, v 2, v 3] i"
  proof (cases "i < 5")
    case True
    from lt5 [OF this] show ?thesis using assms
      by (auto simp: mvec_def mT_def JH_def mat_of_def vec_of_def sum4)
  next
    case False
    then show ?thesis using assms
      by (simp add: mvec_def mT_def JH_def mat_of_def vec_of_def sum4)
  qed
qed

lemma innovation_pd_fix:
  assumes "psd 5 P" "psd 4 Rm" "GPS s"
  shows "pd 4 (innovation_cov Rm (project_cov J P) s)"
  unfolding pd_def
proof (intro allI impI)
  fix v :: vec
  assume "\<exists>i<4. v i \<noteq> 0"
  then obtain i where i: "i < 4" "v i \<noteq> 0" by blast
  let ?w = "mvec 4 (mT (JH s)) v"
  have w: "?w = vec_of [v 0, v 1, 0, v 2, v 3]" by (rule mvec_JH_fix [OF assms(3)])
  have "\<exists>k<5. ?w k \<noteq> 0"
  proof -
    from lt4 [OF i(1)] i(2) have "v 0 \<noteq> 0 \<or> v 1 \<noteq> 0 \<or> v 2 \<noteq> 0 \<or> v 3 \<noteq> 0" by auto
    then have "?w 0 \<noteq> 0 \<or> ?w 1 \<noteq> 0 \<or> ?w 3 \<noteq> 0 \<or> ?w 4 \<noteq> 0"
      unfolding w by (simp add: vec_of_def)
    then show ?thesis
    proof (elim disjE)
      assume "?w 0 \<noteq> 0"
      then show ?thesis by (intro exI [of _ 0]) simp
    next
      assume "?w 1 \<noteq> 0"
      then show ?thesis by (intro exI [of _ 1]) simp
    next
      assume "?w 3 \<noteq> 0"
      then show ?thesis by (intro exI [of _ 3]) simp
    next
      assume "?w 4 \<noteq> 0"
      then show ?thesis by (intro exI [of _ 4]) simp
    qed
  qed
  with pd_Q have "0 < qf 5 Q ?w" by (simp add: pd_def)
  moreover from assms(1) have "0 \<le> qf 5 P (mvec 5 (mT J) ?w)" by (simp add: psd_def)
  moreover from assms(2) have "0 \<le> qf 4 Rm v" by (simp add: psd_def)
  ultimately show "0 < qf 4 (innovation_cov Rm (project_cov J P) s) v"
    by (simp add: qf_innovation qf_project_cov)
qed

subsection \<open>The two updates of a pass\<close>

lemma measurement_update_Inr:
  assumes "measurement_update Rm x P s = Inr (x2, P2)"
  obtains Si where "linalg_inv (innovation_cov Rm P s) = Inr Si"
    and "x2 = vadd x (mvec 4 (kalman_gain P s Si)
                 (vsub (measurements s) (vec_of [x 0, x 1, x 3, x 4])))"
    and "P2 = mmul 5 (msub (eye 5) (mmul 4 (kalman_gain P s Si) (JH s))) P"
  using assms
  by (auto simp: measurement_update_def Let_def numstates_def split: sum.splits)

lemma measurement_update_defined:
  assumes "pd 4 (innovation_cov Rm P s)"
  shows "\<exists>x2 P2. measurement_update Rm x P s = Inr (x2, P2)"
  using pd_det4 [OF assms]
  by (simp add: measurement_update_def Let_def linalg_inv_def)

lemma measurement_update_singular:
  assumes "det4 (innovation_cov Rm P s) = 0"
  shows "measurement_update Rm x P s = Inl LinAlgError"
  using assms by (simp add: measurement_update_def Let_def linalg_inv_def)

lemma measurement_update_preserves:
  assumes "symmetric 5 P" "psd 5 P" "symmetric 4 Rm" "psd 4 Rm"
    and "measurement_update Rm x P s = Inr (x2, P2)"
  shows "symmetric 5 P2 \<and> psd 5 P2"
proof -
  from assms(5) obtain Si where
    Si: "linalg_inv (innovation_cov Rm P s) = Inr Si"
    and P2: "P2 = mmul 5 (msub (eye 5) (mmul 4 (kalman_gain P s Si) (JH s))) P"
    by (rule measurement_update_Inr)
  have symS: "symmetric 4 (innovation_cov Rm P s)"
    unfolding innovation_cov_def by (rule symmetric_S [OF assms(1,3)])
  have symSi: "symmetric 4 Si"
    by (rule linalg_inv_symmetric [OF Si symS])
  have inv: "\<And>i j. i < 4 \<Longrightarrow> j < 4
      \<Longrightarrow> mmul 4 (madd (mmul 5 (mmul 5 (JH s) P) (mT (JH s))) Rm) Si i j = eye 4 i j"
    using linalg_inv_right [OF Si] by (simp add: innovation_cov_def)
  have "symmetric 5 P2"
    unfolding P2 kalman_gain_def by (rule correction_symmetric [OF assms(1) symSi])
  moreover have "psd 5 P2"
    unfolding P2 kalman_gain_def by (rule correction_psd [OF inv assms(2,4)])
  ultimately show ?thesis ..
qed

lemma symmetric_R: "symmetric 4 R"
  unfolding symmetric_def
proof (intro allI impI)
  fix i j :: nat
  assume "i < 4" "j < 4"
  from lt4 [OF this(1)] lt4 [OF this(2)] show "R i j = R j i"
    by (auto simp: R_def mat_of_def Let_def)
qed

lemma diagonal_R: "diagonal 4 R"
  unfolding diagonal_def
proof (intro allI impI)
  fix i j :: nat
  assume "i < 4" "j < 4" "i \<noteq> j"
  with lt4 [of i] lt4 [of j] show "R i j = 0"
    by (auto simp: R_def mat_of_def Let_def)
qed

lemma qf_R: "qf 4 R v = 25 * (v 0 * v 0) + 25 * (v 1 * v 1) + 4 * (v 2 * v 2) + (v 3 * v 3) / 10000"
  by (simp add: qf_def dot_def mvec_def sum4 R_def mat_of_def Let_def power2_eq_square
      algebra_simps)

lemma pd_R: "pd 4 R"
  unfolding pd_def
proof (intro allI impI)
  fix v :: vec
  assume "\<exists>i<4. v i \<noteq> 0"
  then obtain i where i: "i < 4" "v i \<noteq> 0" by blast
  have "0 < (v i)\<^sup>2" using i(2) by simp
  then have pos: "0 < v i * v i" by (simp only: power2_eq_square)
  have lin: "0 < 25 * a + 25 * b + 4 * c + d / 10000"
    if "0 \<le> a" "0 \<le> b" "0 \<le> c" "0 \<le> d" "0 < a \<or> 0 < b \<or> 0 < c \<or> 0 < d"
    for a b c d :: real
    using that by arith
  from lt4 [OF i(1)] pos
  have "0 < v 0 * v 0 \<or> 0 < v 1 * v 1 \<or> 0 < v 2 * v 2 \<or> 0 < v 3 * v 3"
    by blast
  then have "0 < 25 * (v 0 * v 0) + 25 * (v 1 * v 1) + 4 * (v 2 * v 2) + (v 3 * v 3) / 10000"
    by (intro lin) simp_all
  then show "0 < qf 4 R v" by (simp only: qf_R)
qed

lemma symmetric_P0: "symmetric 5 P0"
  by (simp add: symmetric_def P0_def diag_of_def)

lemma psd_P0: "psd 5 P0"
  unfolding psd_def
proof
  fix v
  have "qf 5 P0 v = 1000 * (v 0 * v 0) + 1000 * (v 1 * v 1) + 1000 * (v 2 * v 2)
      + 1000 * (v 3 * v 3) + 1000 * (v 4 * v 4)"
    by (simp add: qf_def dot_def mvec_def sum5 P0_def diag_of_def algebra_simps)
  then show "0 \<le> qf 5 P0 v" by simp
qed

lemma time_update_preserves:
  assumes "symmetric 5 P" "psd 5 P" "time_update x P s = Inr (x1, P1)"
  shows "symmetric 5 P1 \<and> psd 5 P1"
proof -
  from assms(3) obtain J where "P1 = project_cov J P"
    by (auto simp: time_update_def split: sum.splits)
  with assms(1,2) show ?thesis
    by (simp add: symmetric_project_cov psd_project_cov)
qed

lemma time_update_Inr:
  assumes "time_update x P s = Inr (x1, P1)"
  obtains J where "P1 = project_cov J P" "JA x1 = Inr J"
    "project_state (ddstate s) x = Inr x1"
  using assms by (auto simp: time_update_def split: sum.splits)

lemma filter_step_row: "fst (filter_step Rm x P s) = dataout x s"
  by (simp add: filter_step_def Let_def)

lemma filter_step_Inr:
  assumes "snd (filter_step Rm x P s) = Inr (x2, P2)"
  obtains x1 P1 where "time_update x P s = Inr (x1, P1)"
    "measurement_update Rm x1 P1 s = Inr (x2, P2)"
  using assms by (auto simp: filter_step_def Let_def split: sum.splits)

lemma filter_step_preserves:
  assumes "symmetric 5 P" "psd 5 P" "symmetric 4 Rm" "psd 4 Rm"
    and "snd (filter_step Rm x P s) = Inr (x2, P2)"
  shows "symmetric 5 P2 \<and> psd 5 P2"
proof -
  from assms(5) obtain x1 P1 where tu: "time_update x P s = Inr (x1, P1)"
    and mu: "measurement_update Rm x1 P1 s = Inr (x2, P2)"
    by (rule filter_step_Inr)
  from time_update_preserves [OF assms(1,2) tu] measurement_update_preserves [OF _ _ assms(3,4) mu]
  show ?thesis by blast
qed

lemma filter_step_defined:
  assumes "psd 5 P" "pd 4 Rm" "\<bar>yawrate s\<bar> < 0.0001 \<or> x 4 \<noteq> 0"
  shows "\<exists>x1 P1 x2 P2. time_update x P s = Inr (x1, P1)
           \<and> measurement_update Rm x1 P1 s = Inr (x2, P2)
           \<and> filter_step Rm x P s = (dataout x s, Inr (x2, P2))"
proof -
  from assms(3) obtain x1 J where tu: "time_update x P s = Inr (x1, project_cov J P)"
    using time_update_straight [of s x P] time_update_turning [of s x P] by blast
  have "psd 5 (project_cov J P)" by (rule psd_project_cov [OF assms(1)])
  then have "pd 4 (innovation_cov Rm (project_cov J P) s)"
    by (rule innovation_pd [OF _ assms(2)])
  from measurement_update_defined [OF this, of x1] obtain x2 P2 where
    mu: "measurement_update Rm x1 (project_cov J P) s = Inr (x2, P2)" by blast
  from tu mu have "filter_step Rm x P s = (dataout x s, Inr (x2, P2))"
    by (simp add: filter_step_def Let_def)
  with tu mu show ?thesis by blast
qed

lemma filter_step_zero_rate:
  assumes "\<not> \<bar>yawrate s\<bar> < 0.0001" and "x 4 = 0"
  shows "filter_step Rm x P s = (dataout x s, Inl FloatDivideByZero)"
  using assms time_update_zero_rate [where s = s and x = x and P = P]
  by (simp add: filter_step_def Let_def)

subsection \<open>A pass without a position fix\<close>

lemma JH_no_fix: "\<not> GPS s \<Longrightarrow> JH s 0 k = 0 \<and> JH s 1 k = 0"
  by (simp add: JH_def mat_of_def nth_Cons split: nat.splits)

lemma innovation_no_fix:
  assumes "\<not> GPS s"
  shows "innovation_cov Rm P s 0 j = Rm 0 j" "innovation_cov Rm P s 1 j = Rm 1 j"
    "innovation_cov Rm P s i 0 = Rm i 0" "innovation_cov Rm P s i 1 = Rm i 1"
  using JH_no_fix [OF assms]
  by (simp_all add: innovation_cov_def madd_def mmul_def mT_def)

lemma diagonalD: "diagonal n M \<Longrightarrow> i < n \<Longrightarrow> j < n \<Longrightarrow> i \<noteq> j \<Longrightarrow> M i j = 0"
  by (simp add: diagonal_def)

lemma inverse_no_fix:
  assumes "\<not> GPS s" "diagonal 4 Rm" "linalg_inv (innovation_cov Rm P s) = Inr Si"
  shows "Si 2 0 = 0" "Si 3 0 = 0" "Si 2 1 = 0" "Si 3 1 = 0"
proof -
  let ?S = "innovation_cov Rm P s"
  from assms(3) have
    Si: "Si = (\<lambda>i j. if i < 4 \<and> j < 4
                       then (- 1) ^ (i + j) * det3 (minor4 ?S j i) / det4 ?S else 0)"
    by (auto simp: linalg_inv_def split: if_splits)
  have z: "?S 1 0 = 0" "?S 2 0 = 0" "?S 3 0 = 0" "?S 2 1 = 0" "?S 3 1 = 0"
    using diagonalD [OF assms(2), of 1 0] diagonalD [OF assms(2), of 2 0]
      diagonalD [OF assms(2), of 3 0] diagonalD [OF assms(2), of 2 1]
      diagonalD [OF assms(2), of 3 1]
    by (simp_all add: innovation_no_fix [OF assms(1)]
        innovation_no_fix [OF assms(1), unfolded One_nat_def])
  note zs = z [unfolded numeral_2_eq_2 numeral_3_eq_3 One_nat_def]
  show "Si 2 0 = 0" "Si 3 0 = 0" "Si 2 1 = 0" "Si 3 1 = 0"
    by (simp_all add: Si det3_def minor4_def numeral_2_eq_2 numeral_3_eq_3 zs)
qed

lemma gain_no_fix:
  assumes "\<not> GPS s" "diagonal 4 Rm" "linalg_inv (innovation_cov Rm P s) = Inr Si"
  shows "kalman_gain P s Si k 0 = 0 \<and> kalman_gain P s Si k 1 = 0"
proof -
  have PH: "mmul 5 P (mT (JH s)) k 0 = 0" "mmul 5 P (mT (JH s)) k 1 = 0"
    using JH_no_fix [OF assms(1)] by (simp_all add: mmul_def mT_def)
  note Z = PH inverse_no_fix [OF assms]
  show ?thesis
    by (simp add: kalman_gain_def mmul_def [of 4] sum4 Z Z [unfolded One_nat_def])
qed

lemma time_update_ignores_position:
  "time_update x P (s\<lparr>mx := a, my := b\<rparr>) = time_update x P s"
  by (simp add: time_update_def ddstate_def)

lemma measurement_update_ignores_position:
  assumes "\<not> GPS s" "diagonal 4 Rm"
  shows "measurement_update Rm x P (s\<lparr>mx := a, my := b\<rparr>) = measurement_update Rm x P s"
proof -
  let ?s = "s\<lparr>mx := a, my := b\<rparr>"
  have JH: "JH ?s = JH s" by (simp add: JH_def)
  have S: "innovation_cov Rm P ?s = innovation_cov Rm P s"
    by (simp add: innovation_cov_def JH)
  have K: "kalman_gain P ?s Si = kalman_gain P s Si" for Si
    by (simp add: kalman_gain_def JH)
  show ?thesis
  proof (cases "linalg_inv (innovation_cov Rm P s)")
    case (Inl e)
    then show ?thesis by (simp add: measurement_update_def Let_def S)
  next
    case (Inr Si)
    have col: "kalman_gain P s Si k 0 = 0" "kalman_gain P s Si k 1 = 0" for k
      using gain_no_fix [OF assms Inr, of k] by simp_all
    have "mvec 4 (kalman_gain P s Si) (vsub (measurements ?s) h)
        = mvec 4 (kalman_gain P s Si) (vsub (measurements s) h)" for h
      by (rule ext)
        (simp add: mvec_def sum4 col col [unfolded One_nat_def] vsub_def measurements_def
          vec_of_def)
    then show ?thesis
      by (simp add: measurement_update_def Let_def S K JH Inr)
  qed
qed

lemma filter_step_ignores_position:
  assumes "\<not> GPS s" "diagonal 4 Rm"
  shows "snd (filter_step Rm x P (s\<lparr>mx := a, my := b\<rparr>)) = snd (filter_step Rm x P s)"
proof (cases "time_update x P s")
  case (Inl e)
  then show ?thesis
    by (simp add: filter_step_def Let_def time_update_ignores_position)
next
  case (Inr r)
  obtain x1 P1 where r: "r = (x1, P1)" by (cases r)
  show ?thesis
    using measurement_update_ignores_position [OF assms, where x = x1 and P = P1 and a = a and b = b]
    by (simp add: filter_step_def Let_def time_update_ignores_position Inr r)
qed



subsection \<open>Passes that complete, passes that raise\<close>

lemma zero_innovation:
  assumes "measurement_update Rm x1 P1 s = Inr (x2, P2)"
    and "\<And>k. k < 4 \<Longrightarrow> measurements s k = vec_of [x1 0, x1 1, x1 3, x1 4] k"
  shows "x2 = x1"
proof -
  from assms(1) obtain Si where
    x2: "x2 = vadd x1 (mvec 4 (kalman_gain P1 s Si)
                 (vsub (measurements s) (vec_of [x1 0, x1 1, x1 3, x1 4])))"
    by (rule measurement_update_Inr)
  have "mvec 4 (kalman_gain P1 s Si)
          (vsub (measurements s) (vec_of [x1 0, x1 1, x1 3, x1 4])) i = 0" for i
    unfolding mvec_def by (rule sum.neutral) (simp add: vsub_def assms(2))
  then show ?thesis by (simp add: x2 vadd_def)
qed

lemma filter_step_defined_fix:
  assumes "psd 5 P" "psd 4 Rm" "GPS s" "\<bar>yawrate s\<bar> < 0.0001 \<or> x 4 \<noteq> 0"
  shows "\<exists>x1 P1 x2 P2. time_update x P s = Inr (x1, P1)
           \<and> measurement_update Rm x1 P1 s = Inr (x2, P2)
           \<and> filter_step Rm x P s = (dataout x s, Inr (x2, P2))"
proof -
  from assms(4) obtain x1 J where tu: "time_update x P s = Inr (x1, project_cov J P)"
    using time_update_straight [of s x P] time_update_turning [of s x P] by blast
  have "pd 4 (innovation_cov Rm (project_cov J P) s)"
    by (rule innovation_pd_fix [OF assms(1,2,3)])
  from measurement_update_defined [OF this, of x1] obtain x2 P2 where
    mu: "measurement_update Rm x1 (project_cov J P) s = Inr (x2, P2)" by blast
  from tu mu have "filter_step Rm x P s = (dataout x s, Inr (x2, P2))"
    by (simp add: filter_step_def Let_def)
  with tu mu show ?thesis by blast
qed

lemma det4_row0_zero:
  assumes "A 0 0 = 0" "A 0 1 = 0" "A 0 2 = 0" "A 0 3 = 0"
  shows "det4 A = 0"
  by (simp add: det4_def assms assms [unfolded One_nat_def])

lemma filter_step_singular:
  assumes "\<not> GPS s" "Rm 0 0 = 0" "Rm 0 1 = 0" "Rm 0 2 = 0" "Rm 0 3 = 0"
    and "\<bar>yawrate s\<bar> < 0.0001 \<or> x 4 \<noteq> 0"
  shows "(\<exists>x1 P1. time_update x P s = Inr (x1, P1)
            \<and> measurement_update Rm x1 P1 s = Inl LinAlgError)
         \<and> filter_step Rm x P s = (dataout x s, Inl LinAlgError)"
proof -
  from assms(6) obtain x1 J where tu: "time_update x P s = Inr (x1, project_cov J P)"
    using time_update_straight [of s x P] time_update_turning [of s x P] by blast
  have "det4 (innovation_cov Rm (project_cov J P) s) = 0"
    by (rule det4_row0_zero)
      (simp_all add: innovation_no_fix [OF assms(1)] assms assms [unfolded One_nat_def])
  then have mu: "measurement_update Rm x1 (project_cov J P) s = Inl LinAlgError"
    by (rule measurement_update_singular)
  from tu mu have "filter_step Rm x P s = (dataout x s, Inl LinAlgError)"
    by (simp add: filter_step_def Let_def)
  with tu mu show ?thesis by blast
qed


subsection \<open>The loop\<close>

lemma loop_body_row:
  "fst (loop_body Rm (Estimate x P) s) = map Number (dataout x s)"
  "fst (loop_body Rm NotANumber s) = dataout_nan s"
  by (simp_all add: filter_step_def Let_def)

lemma loop_body_Inr:
  assumes "filter_step Rm x P s = (row, Inr (x2, P2))"
  shows "loop_body Rm (Estimate x P) s = (map Number row, Inr (Estimate x2 P2))"
  using assms by simp

lemma loop_body_divide:
  assumes "filter_step Rm x P s = (row, Inl FloatDivideByZero)"
  shows "loop_body Rm (Estimate x P) s = (map Number row, Inr NotANumber)"
  using assms by simp

lemma loop_body_raise:
  assumes "filter_step Rm x P s = (row, Inl LinAlgError)"
  shows "loop_body Rm (Estimate x P) s = (map Number row, Inl LinAlgError)"
  using assms by simp

lemma ekf_loop_Cons_Inr:
  assumes "loop_body Rm e s = (row, Inr e')"
  shows "ekf_loop Rm e (s # ss) = (row # fst (ekf_loop Rm e' ss), snd (ekf_loop Rm e' ss))"
  using assms by (simp add: split_def Let_def)

lemma ekf_loop_Cons_Inl:
  assumes "loop_body Rm e s = (row, Inl err)"
  shows "ekf_loop Rm e (s # ss) = ([row], Inl err)"
  using assms by simp


lemma ekf_loop_length:
  "snd (ekf_loop Rm e ss) = Inr ef \<Longrightarrow> length (fst (ekf_loop Rm e ss)) = length ss"
  by (induction ss arbitrary: e) (auto simp: split_def Let_def split: sum.splits)

lemma ekf_loop_length_le: "length (fst (ekf_loop Rm e ss)) \<le> length ss"
  by (induction ss arbitrary: e) (auto simp: split_def Let_def split: sum.splits)

declare loop_body.simps(1) [simp del] ekf_loop.simps(2) [simp del]

lemma ekf_loop_defined:
  assumes "symmetric 5 P" "psd 5 P" "symmetric 4 Rm" "pd 4 Rm"
    and "\<forall>s\<in>set ss. \<bar>yawrate s\<bar> < 0.0001"
  shows "\<exists>xf Pf. snd (ekf_loop Rm (Estimate x P) ss) = Inr (Estimate xf Pf)
           \<and> symmetric 5 Pf \<and> psd 5 Pf"
  using assms(1,2,5)
proof (induction ss arbitrary: x P)
  case Nil
  then show ?case by simp
next
  case (Cons s ss)
  from Cons.prems(3) have s: "\<bar>yawrate s\<bar> < 0.0001 \<or> x 4 \<noteq> 0" by simp
  from Cons.prems(2) assms(4) s filter_step_defined [of P Rm s x]
  obtain x2 P2 where fs: "filter_step Rm x P s = (dataout x s, Inr (x2, P2))" by blast
  then have "snd (filter_step Rm x P s) = Inr (x2, P2)" by simp
  from filter_step_preserves [OF Cons.prems(1,2) assms(3) pd_imp_psd [OF assms(4)] this]
  have P2: "symmetric 5 P2" "psd 5 P2" by simp_all
  from Cons.prems(3) have "\<forall>s\<in>set ss. \<bar>yawrate s\<bar> < 0.0001" by simp
  from Cons.IH [OF P2 this, of x2] obtain xf Pf where
    "snd (ekf_loop Rm (Estimate x2 P2) ss) = Inr (Estimate xf Pf)"
    "symmetric 5 Pf" "psd 5 Pf" by blast
  with ekf_loop_Cons_Inr [OF loop_body_Inr [OF fs], of ss] show ?case by simp
qed


lemma ekf_loop_rows:
  assumes "k < length ss"
  shows "(\<forall>ek. snd (ekf_loop Rm e (take k ss)) = Inr ek \<longrightarrow>
            k < length (fst (ekf_loop Rm e ss))
          \<and> fst (ekf_loop Rm e ss) ! k = fst (loop_body Rm ek (ss ! k))
          \<and> snd (ekf_loop Rm e (take (Suc k) ss)) = snd (loop_body Rm ek (ss ! k)))
       \<and> (\<forall>err. snd (ekf_loop Rm e (take k ss)) = Inl err \<longrightarrow>
            length (fst (ekf_loop Rm e ss)) \<le> k
          \<and> snd (ekf_loop Rm e ss) = Inl err)"
  using assms
proof (induction ss arbitrary: e k)
  case Nil
  then show ?case by simp
next
  case (Cons s ss)
  obtain row outcome where b: "loop_body Rm e s = (row, outcome)"
    by (cases "loop_body Rm e s")
  show ?case
  proof (cases k)
    case 0
    then show ?thesis
      by (cases outcome) (simp_all add: b split_def Let_def ekf_loop.simps)
  next
    case (Suc k')
    with Cons.prems have k': "k' < length ss" by simp
    show ?thesis
    proof (cases outcome)
      case (Inl err)
      then show ?thesis by (simp add: Suc b ekf_loop.simps)
    next
      case (Inr e')
      with Cons.IH [OF k', of e'] show ?thesis
        by (simp add: Suc b split_def Let_def ekf_loop.simps)
    qed
  qed
qed

lemma zero_innovation_sample:
  "\<bar>yawrate \<lparr>mx = 1 / 50, my = 0, speed = 18 / 5,
      yawrate = 180 / (10 ^ 7 * pi), course = 0, GPS = True\<rparr>\<bar> < 0.0001"
proof -
  have "180 < 1000 * pi" using pi_ge_two by simp
  then have "180 / (10 ^ 7 * pi) < 1 / 10 ^ 4"
    using pi_gt_zero by (simp add: field_simps)
  then show ?thesis by simp
qed

lemma zero_innovation_pass:
  assumes "psd 5 P" "psd 4 Rm"
  shows "written Rm (vec_of [0, 0, 0, 1, 0]) P
           \<lparr>mx = 1 / 50, my = 0, speed = 18 / 5,
               yawrate = 180 / (10 ^ 7 * pi), course = 0, GPS = True\<rparr>
         = [0, 0, 0, 1, 0, 1 / 50, 0, 1, 1 / 10 ^ 7, 0, 1]"
    and "corrected Rm (vec_of [0, 0, 0, 1, 0]) P
           \<lparr>mx = 1 / 50, my = 0, speed = 18 / 5,
               yawrate = 180 / (10 ^ 7 * pi), course = 0, GPS = True\<rparr> 0 = Inr (1 / 50)"
    and "corrected Rm (vec_of [0, 0, 0, 1, 0]) P
           \<lparr>mx = 1 / 50, my = 0, speed = 18 / 5,
               yawrate = 180 / (10 ^ 7 * pi), course = 0, GPS = True\<rparr> 4 = Inr (1 / 10 ^ 7)"
proof -
  let ?x = "vec_of [0, 0, 0, 1, 0]"
  let ?s = "\<lparr>mx = 1 / 50, my = 0, speed = 18 / 5,
      yawrate = 180 / (10 ^ 7 * pi), course = 0, GPS = True\<rparr>"
  note st = zero_innovation_sample
  from st assms filter_step_defined_fix [of P Rm ?s ?x]
  obtain x1 P1 x2 P2 where tu: "time_update ?x P ?s = Inr (x1, P1)"
    and mu: "measurement_update Rm x1 P1 ?s = Inr (x2, P2)"
    and fs: "filter_step Rm ?x P ?s = (dataout ?x ?s, Inr (x2, P2))"
    by auto
  from time_update_straight [OF st, of ?x P] tu
  have x1: "x1 0 = 1 / 50" "x1 1 = 0" "x1 3 = 1" "x1 4 = 1 / 10 ^ 7"
    by (auto simp: vec_of_def dt_def)
  have "measurements ?s k = vec_of [x1 0, x1 1, x1 3, x1 4] k" if "k < 4" for k
    using lt4 [OF that] by (auto simp: measurements_def vec_of_def x1 x1 [unfolded One_nat_def])
  from zero_innovation [OF mu this] have x2: "x2 = x1" by simp
  have st': "ddstate ?s = 0" using st by (simp add: ddstate_def)
  have row: "dataout ?x ?s = [0, 0, 0, 1, 0, 1 / 50, 0, 1, 1 / 10 ^ 7, 0, 1]"
    unfolding dataout_def Let_def st' by (simp add: measurements_def vec_of_def)
  show "written Rm ?x P ?s = [0, 0, 0, 1, 0, 1 / 50, 0, 1, 1 / 10 ^ 7, 0, 1]"
    unfolding written_def fs row by simp
  show "corrected Rm ?x P ?s 0 = Inr (1 / 50)"
    unfolding corrected_def fs x2 by (simp add: x1)
  show "corrected Rm ?x P ?s 4 = Inr (1 / 10 ^ 7)"
    unfolding corrected_def fs x2 by (simp add: x1)
qed

subsection \<open>A log that reaches a zero yaw rate\<close>

lemma project_cov_row4:
  assumes "JA x1 = Inr J" "x1 3 = 0"
  shows "project_cov J P0 4 0 = 0" "project_cov J P0 4 1 = 0" "project_cov J P0 4 3 = 0"
    "project_cov J P0 4 4 = 1000 + Q 4 4"
    "project_cov J P0 0 4 = 0" "project_cov J P0 1 4 = 0" "project_cov J P0 3 4 = 0"
proof -
  note J = JA_entries(2) [OF assms(1)]
  show "project_cov J P0 4 0 = 0" "project_cov J P0 4 1 = 0" "project_cov J P0 4 3 = 0"
    "project_cov J P0 4 4 = 1000 + Q 4 4"
    unfolding J
    by (simp_all add: project_cov_def madd_def mmul_def mT_def sum5 mat_of_def P0_def
        diag_of_def assms(2) Q_off)
  then show "project_cov J P0 0 4 = 0" "project_cov J P0 1 4 = 0" "project_cov J P0 3 4 = 0"
    using symmetric_project_cov [OF symmetric_P0, of J]
    by (simp_all add: symmetric_def)
qed

lemma innovation_fix_row3:
  assumes "GPS s"
  shows "innovation_cov Rm P s 3 0 = P 4 0 + Rm 3 0" "innovation_cov Rm P s 3 1 = P 4 1 + Rm 3 1"
    "innovation_cov Rm P s 3 2 = P 4 3 + Rm 3 2" "innovation_cov Rm P s 3 3 = P 4 4 + Rm 3 3"
    "innovation_cov Rm P s 0 3 = P 0 4 + Rm 0 3" "innovation_cov Rm P s 1 3 = P 1 4 + Rm 1 3"
    "innovation_cov Rm P s 2 3 = P 3 4 + Rm 2 3"
  using assms
  by (simp_all add: innovation_cov_def madd_def mmul_def mT_def sum5 JH_def mat_of_def)

lemma gain_fix_row4:
  assumes "GPS s"
  shows "kalman_gain P s Si 4 a
       = P 4 0 * Si 0 a + P 4 1 * Si 1 a + P 4 3 * Si 2 a + P 4 4 * Si 3 a"
  using assms
  by (simp add: kalman_gain_def mmul_def mT_def sum4 sum5 JH_def mat_of_def)

lemma inverse_last_row:
  assumes "S 3 0 = 0" "S 3 1 = 0" "S 3 2 = 0" "S 0 3 = 0" "S 1 3 = 0" "S 2 3 = 0"
    and "linalg_inv S = Inr Si"
  shows "Si 3 0 = 0" "Si 3 1 = 0" "Si 3 2 = 0" "Si 3 3 = 1 / S 3 3"
proof -
  from assms(7) have d: "det4 S \<noteq> 0"
    and Si: "Si = (\<lambda>i j. if i < 4 \<and> j < 4
                       then (- 1) ^ (i + j) * det3 (minor4 S j i) / det4 S else 0)"
    by (auto simp: linalg_inv_def split: if_splits)
  note z = assms(1-6) [unfolded numeral_2_eq_2 numeral_3_eq_3 One_nat_def]
  show "Si 3 0 = 0" "Si 3 1 = 0" "Si 3 2 = 0"
    by (simp_all add: Si det3_def minor4_def numeral_2_eq_2 numeral_3_eq_3 z)
  have dd: "det4 S = S 3 3 * det3 (minor4 S 3 3)"
    by (simp add: det4_def det3_def minor4_def numeral_2_eq_2 numeral_3_eq_3 z algebra_simps)
  with d have "S 3 3 \<noteq> 0" "det3 (minor4 S 3 3) \<noteq> 0" by auto
  then show "Si 3 3 = 1 / S 3 3"
    by (simp add: Si dd)
qed

lemma Q44: "Q 4 4 = 1 / 2500"
  by (simp add: Q_def diag_of_def Let_def dt_def power2_eq_square)

lemma R_row3: "R 3 0 = 0" "R 3 1 = 0" "R 3 2 = 0" "R 3 3 = 1 / 10000"
  "R 0 3 = 0" "R 1 3 = 0" "R 2 3 = 0"
  by (simp_all add: R_def mat_of_def Let_def power2_eq_square)

lemma corrected_yaw_rate_at_rest:
  assumes st: "\<bar>yawrate s\<bar> < 0.0001" and gps: "GPS s" and v: "x 3 = 0"
  shows "corrected R x P0 s 4
       = Inr (1 / 10 ^ 7 + 10000004 / 10000005 * (yawrate s / 180 * pi - 1 / 10 ^ 7))"
proof -
  from st psd_P0 pd_R filter_step_defined [of P0 R s x]
  obtain x1 P1 x2 P2 where tu: "time_update x P0 s = Inr (x1, P1)"
    and mu: "measurement_update R x1 P1 s = Inr (x2, P2)"
    and fs: "filter_step R x P0 s = (dataout x s, Inr (x2, P2))"
    by auto
  from time_update_straight [OF st, of x P0] tu v
  have x1: "x1 3 = 0" "x1 4 = 1 / 10 ^ 7"
    by auto
  from tu obtain J where P1: "P1 = project_cov J P0" and J: "JA x1 = Inr J"
    by (rule time_update_Inr)
  note row = project_cov_row4 [OF J x1(1), folded P1]
  from mu obtain Si where Si: "linalg_inv (innovation_cov R P1 s) = Inr Si"
    and x2: "x2 = vadd x1 (mvec 4 (kalman_gain P1 s Si)
                 (vsub (measurements s) (vec_of [x1 0, x1 1, x1 3, x1 4])))"
    by (rule measurement_update_Inr)
  note S = innovation_fix_row3 [OF gps, of R P1]
  have z: "innovation_cov R P1 s 3 0 = 0" "innovation_cov R P1 s 3 1 = 0"
    "innovation_cov R P1 s 3 2 = 0" "innovation_cov R P1 s 0 3 = 0"
    "innovation_cov R P1 s 1 3 = 0" "innovation_cov R P1 s 2 3 = 0"
    by (simp_all add: S S [unfolded One_nat_def] row row [unfolded One_nat_def]
        R_row3 R_row3 [unfolded One_nat_def])
  note inv = inverse_last_row [OF z Si]
  have S33: "innovation_cov R P1 s 3 3 = 10000005 / 10000"
    by (simp add: S row R_row3 Q44)
  have K: "kalman_gain P1 s Si 4 0 = 0" "kalman_gain P1 s Si 4 1 = 0"
    "kalman_gain P1 s Si 4 2 = 0" "kalman_gain P1 s Si 4 3 = 10000004 / 10000005"
    unfolding gain_fix_row4 [OF gps]
    by (simp_all add: row row [unfolded One_nat_def] inv inv [unfolded One_nat_def] S33 Q44)
  define y where "y = vsub (measurements s) (vec_of [x1 0, x1 1, x1 3, x1 4])"
  have y3: "y 3 = yawrate s / 180 * pi - 1 / 10 ^ 7"
    by (simp add: y_def vsub_def measurements_def vec_of_def x1)
  have "x2 4 = x1 4 + (kalman_gain P1 s Si 4 0 * y 0 + kalman_gain P1 s Si 4 1 * y 1
      + kalman_gain P1 s Si 4 2 * y 2 + kalman_gain P1 s Si 4 3 * y 3)"
    unfolding x2 y_def [symmetric] by (simp add: vadd_def mvec_def sum4)
  then have "x2 4 = 1 / 10 ^ 7 + 10000004 / 10000005 * (yawrate s / 180 * pi - 1 / 10 ^ 7)"
    unfolding K y3 x1 by simp
  then show ?thesis unfolding corrected_def fs by simp
qed

lemma zero_rate_sample:
  "\<bar>yawrate \<lparr>mx = 0, my = 0, speed = - (9 / 2500),
      yawrate = - (45 / (2500001 * 10 ^ 7 * pi)), course = 0, GPS = True\<rparr>\<bar> < 0.0001"
proof -
  have "45 < 2500001 * 1000 * pi" using pi_ge_two by simp
  then have "45 / (2500001 * 10 ^ 7 * pi) < 1 / 10 ^ 4"
    using pi_gt_zero by (simp add: field_simps)
  then show ?thesis by simp
qed

lemma zero_rate_reached:
  "corrected R
     (initial_state \<lparr>mx = 0, my = 0, speed = - (9 / 2500),
         yawrate = - (45 / (2500001 * 10 ^ 7 * pi)), course = 0, GPS = True\<rparr>) P0
     \<lparr>mx = 0, my = 0, speed = - (9 / 2500),
         yawrate = - (45 / (2500001 * 10 ^ 7 * pi)), course = 0, GPS = True\<rparr> 4 = Inr 0"
proof -
  let ?s = "\<lparr>mx = 0, my = 0, speed = - (9 / 2500),
      yawrate = - (45 / (2500001 * 10 ^ 7 * pi)), course = 0, GPS = True\<rparr>"
  have v: "initial_state ?s 3 = 0" by (simp add: initial_state_def vec_of_def)
  have g: "GPS ?s" by simp
  from zero_rate_sample g v
    corrected_yaw_rate_at_rest [where s = ?s and x = "initial_state ?s"]
  have "corrected R (initial_state ?s) P0 ?s 4
       = Inr (1 / 10 ^ 7 + 10000004 / 10000005 * (yawrate ?s / 180 * pi - 1 / 10 ^ 7))"
    by blast
  then show ?thesis by simp
qed

lemma ekf_divides_by_zero:
  "length (fst (ekf \<lparr>mx = 0, my = 0, speed = - (9 / 2500),
      yawrate = - (45 / (2500001 * 10 ^ 7 * pi)), course = 0, GPS = True\<rparr>
       [\<lparr>mx = 0, my = 0, speed = 0, yawrate = 1, course = 0, GPS = False\<rparr>])) = 2"
  "fst (ekf \<lparr>mx = 0, my = 0, speed = - (9 / 2500),
      yawrate = - (45 / (2500001 * 10 ^ 7 * pi)), course = 0, GPS = True\<rparr>
       [\<lparr>mx = 0, my = 0, speed = 0, yawrate = 1, course = 0, GPS = False\<rparr>]) ! 1 ! 4
     = Number 0"
  "fst (ekf \<lparr>mx = 0, my = 0, speed = - (9 / 2500),
      yawrate = - (45 / (2500001 * 10 ^ 7 * pi)), course = 0, GPS = True\<rparr>
       [\<lparr>mx = 0, my = 0, speed = 0, yawrate = 1, course = 0, GPS = False\<rparr>]) ! 1 ! 9
     = Number 1"
  "snd (ekf \<lparr>mx = 0, my = 0, speed = - (9 / 2500),
      yawrate = - (45 / (2500001 * 10 ^ 7 * pi)), course = 0, GPS = True\<rparr>
       [\<lparr>mx = 0, my = 0, speed = 0, yawrate = 1, course = 0, GPS = False\<rparr>])
     = Inr NotANumber"
proof -
  let ?s = "\<lparr>mx = 0, my = 0, speed = - (9 / 2500),
      yawrate = - (45 / (2500001 * 10 ^ 7 * pi)), course = 0, GPS = True\<rparr>"
  let ?t = "\<lparr>mx = 0, my = 0, speed = 0, yawrate = 1, course = 0, GPS = False\<rparr>"
  from zero_rate_reached obtain x2 P2 where
    fs: "snd (filter_step R (initial_state ?s) P0 ?s) = Inr (x2, P2)" and x2: "x2 4 = 0"
    unfolding corrected_def by (auto split: sum.splits)
  from fs filter_step_row [of R "initial_state ?s" P0 ?s]
  have fs': "filter_step R (initial_state ?s) P0 ?s
      = (dataout (initial_state ?s) ?s, Inr (x2, P2))"
    by (cases "filter_step R (initial_state ?s) P0 ?s") simp
  have t: "\<not> \<bar>yawrate ?t\<bar> < 0.0001" by simp
  have dd: "ddstate ?t = 1" by (simp add: ddstate_def)
  note first = ekf_loop_Cons_Inr [OF loop_body_Inr [OF fs'], of "[?t]"]
  note second = ekf_loop_Cons_Inr [OF loop_body_divide
      [OF filter_step_zero_rate [where s = ?t and x = x2 and Rm = R and P = P2, OF t x2]],
      of "[]"]
  have run: "ekf ?s [?t]
      = ([map Number (dataout (initial_state ?s) ?s), map Number (dataout x2 ?t)],
         Inr NotANumber)"
    unfolding ekf_def first second by simp
  show "length (fst (ekf ?s [?t])) = 2"
    unfolding run by simp
  show "fst (ekf ?s [?t]) ! 1 ! 4 = Number 0"
    unfolding run by (simp add: dataout_def Let_def x2)
  show "fst (ekf ?s [?t]) ! 1 ! 9 = Number 1"
    unfolding run by (simp add: dataout_def Let_def dd)
  show "snd (ekf ?s [?t]) = Inr NotANumber"
    unfolding run by simp
qed

section \<open>Claims about the time update\<close>

text \<open>
  C1, as amended. The branch of the motion model is chosen from the logged yaw rate of
  the current sample (\<^verbatim>\<open>yawrate[filterstep]\<close>, in degrees per second), whatever the
  state holds: the flag written for the pass is 0 and the straight-line formulas are
  used exactly when that logged value is below 0.0001 in absolute value; otherwise the
  flag is 1 and, on a state of nonzero yaw rate, the turning formulas are used.
\<close>

theorem branch_selected_by_sample:
  "dataout x s ! 9 = (if \<bar>yawrate s\<bar> < 0.0001 then 0 else 1)
   \<and> (\<bar>yawrate s\<bar> < 0.0001 \<longrightarrow>
         predicted x P s 0 = Inr (x 0 + x 3 * dt * cos (x 2))
       \<and> predicted x P s 4 = Inr 0.0000001)
   \<and> (\<not> \<bar>yawrate s\<bar> < 0.0001 \<and> x 4 \<noteq> 0 \<longrightarrow>
         predicted x P s 0 = Inr (x 0 + (x 3 / x 4) * (sin (x 4 * dt + x 2) - sin (x 2)))
       \<and> predicted x P s 4 = Inr (x 4))"
  using time_update_straight [of s x P] time_update_turning [of s x P]
  by (auto simp: predicted_def dataout_def ddstate_def Let_def)

theorem branch_selected_by_sample_witness:
  "(\<bar>yawrate \<lparr>mx = 0, my = 0, speed = 0,
      yawrate = 0, course = 0, GPS = True\<rparr>\<bar> < 0.0001
    \<and> predicted (vec_of [0, 0, 0, 1, 1]) P0
         \<lparr>mx = 0, my = 0, speed = 0,
             yawrate = 0, course = 0, GPS = True\<rparr> 0 = Inr (1 / 50)
    \<and> predicted (vec_of [0, 0, 0, 1, 1]) P0
         \<lparr>mx = 0, my = 0, speed = 0, yawrate = 0, course = 0, GPS = True\<rparr> 4
        = Inr 0.0000001)
   \<and> (\<not> \<bar>yawrate \<lparr>mx = 0, my = 0, speed = 0,
       yawrate = 1, course = 0, GPS = True\<rparr>\<bar> < 0.0001
    \<and> vec_of [0, 0, 0, 0, 2] 4 \<noteq> 0
    \<and> predicted (vec_of [0, 0, 0, 0, 2]) P0
         \<lparr>mx = 0, my = 0, speed = 0, yawrate = 1, course = 0, GPS = True\<rparr> 0 = Inr 0
    \<and> predicted (vec_of [0, 0, 0, 0, 2]) P0
         \<lparr>mx = 0, my = 0, speed = 0, yawrate = 1, course = 0, GPS = True\<rparr> 4 = Inr 2)"
  using branch_selected_by_sample
      [of "vec_of [0, 0, 0, 1, 1]"
          "\<lparr>mx = 0, my = 0, speed = 0, yawrate = 0, course = 0, GPS = True\<rparr>" P0]
    branch_selected_by_sample
      [of "vec_of [0, 0, 0, 0, 2]"
          "\<lparr>mx = 0, my = 0, speed = 0, yawrate = 1, course = 0, GPS = True\<rparr>" P0]
  by (simp add: vec_of_def dt_def)

text \<open>
  The state's own yaw rate does not select the branch: with a state of yaw rate 1 rad/s
  and a logged yaw rate of 0 the straight-line branch is taken.
\<close>

theorem branch_ignores_state_counterexample:
  "\<not> \<bar>vec_of [0, 0, 0, 1, 1] 4\<bar> < 0.0001
   \<and> ddstate \<lparr>mx = 0, my = 0, speed = 0, yawrate = 0, course = 0, GPS = True\<rparr> = 0
   \<and> predicted (vec_of [0, 0, 0, 1, 1]) P0
        \<lparr>mx = 0, my = 0, speed = 0, yawrate = 0, course = 0, GPS = True\<rparr> 0 = Inr dt
   \<and> predicted (vec_of [0, 0, 0, 1, 1]) P0
        \<lparr>mx = 0, my = 0, speed = 0,
            yawrate = 0, course = 0, GPS = True\<rparr> 4 = Inr 0.0000001"
  by (simp add: predicted_def time_update_def project_state_def ddstate_def
      JA_def Let_def vec_of_def)

text \<open>
  C2. When the straight-line branch is taken the predicted position is
  \<open>x + v dt cos \<psi>\<close>, \<open>y + v dt sin \<psi>\<close>, heading and velocity are unchanged and the
  yaw rate of the state becomes the fixed value \<open>10\<^sup>-\<^sup>7\<close>, which is not zero.
\<close>

theorem straight_line_prediction:
  assumes "\<bar>yawrate s\<bar> < 0.0001"
  shows "predicted x P s 0 = Inr (x 0 + x 3 * dt * cos (x 2))
       \<and> predicted x P s 1 = Inr (x 1 + x 3 * dt * sin (x 2))
       \<and> predicted x P s 2 = Inr (x 2)
       \<and> predicted x P s 3 = Inr (x 3)
       \<and> predicted x P s 4 = Inr 0.0000001
       \<and> predicted x P s 4 \<noteq> Inr 0"
  using time_update_straight [OF assms, of x P]
  by (auto simp: predicted_def)

theorem straight_line_prediction_witness:
  "\<bar>yawrate \<lparr>mx = 0, my = 0, speed = 36,
      yawrate = 0, course = 0, GPS = True\<rparr>\<bar> < 0.0001
   \<and> predicted (vec_of [3, 7, 0, 10, 0]) P0
        \<lparr>mx = 0, my = 0, speed = 36,
            yawrate = 0, course = 0, GPS = True\<rparr> 0 = Inr (16 / 5)
   \<and> predicted (vec_of [3, 7, 0, 10, 0]) P0
        \<lparr>mx = 0, my = 0, speed = 36, yawrate = 0, course = 0, GPS = True\<rparr> 1 = Inr 7
   \<and> predicted (vec_of [3, 7, 0, 10, 0]) P0
        \<lparr>mx = 0, my = 0, speed = 36,
            yawrate = 0, course = 0, GPS = True\<rparr> 4 = Inr 0.0000001"
  using straight_line_prediction
    [of "\<lparr>mx = 0, my = 0, speed = 36, yawrate = 0, course = 0, GPS = True\<rparr>"
        "vec_of [3, 7, 0, 10, 0]" P0]
  by (simp add: vec_of_def dt_def)

text \<open>
  C3. When the turning branch is taken (and the state's yaw rate is not zero, so that
  the quotients exist) the predicted position follows the closed CTRV form, the heading
  is \<open>\<psi> + \<psi>' dt\<close> brought back by a multiple of \<open>2\<pi>\<close> into the interval from \<open>-\<pi>\<close> to
  \<open>\<pi>\<close>, and velocity and yaw rate are unchanged.
\<close>

theorem turning_prediction:
  assumes "\<not> \<bar>yawrate s\<bar> < 0.0001" and "x 4 \<noteq> 0"
  shows "predicted x P s 0 = Inr (x 0 + (x 3 / x 4) * (sin (x 4 * dt + x 2) - sin (x 2)))
       \<and> predicted x P s 1 = Inr (x 1 + (x 3 / x 4) * (- cos (x 4 * dt + x 2) + cos (x 2)))
       \<and> predicted x P s 2 = Inr (pymod (x 2 + x 4 * dt + pi) (2 * pi) - pi)
       \<and> (\<exists>k::int. pymod (x 2 + x 4 * dt + pi) (2 * pi) - pi
                     = x 2 + x 4 * dt - 2 * pi * of_int k)
       \<and> - pi \<le> pymod (x 2 + x 4 * dt + pi) (2 * pi) - pi
       \<and> pymod (x 2 + x 4 * dt + pi) (2 * pi) - pi < pi
       \<and> predicted x P s 3 = Inr (x 3)
       \<and> predicted x P s 4 = Inr (x 4)"
  using assms time_update_turning [of s x P] wrap_range [of "x 2 + x 4 * dt"]
    wrap_congruent [of "x 2 + x 4 * dt"]
  by (auto simp: predicted_def)

theorem turning_prediction_witness:
  "\<not> \<bar>yawrate \<lparr>mx = 0, my = 0, speed = 36,
      yawrate = 9000, course = 0, GPS = True\<rparr>\<bar> < 0.0001
   \<and> vec_of [3, 7, 0, 10, 50 * pi] 4 \<noteq> 0
   \<and> predicted (vec_of [3, 7, 0, 10, 50 * pi]) P0
        \<lparr>mx = 0, my = 0, speed = 36, yawrate = 9000, course = 0, GPS = True\<rparr> 0 = Inr 3
   \<and> predicted (vec_of [3, 7, 0, 10, 50 * pi]) P0
        \<lparr>mx = 0, my = 0, speed = 36, yawrate = 9000, course = 0, GPS = True\<rparr> 1
       = Inr (7 + 2 / (5 * pi))
   \<and> predicted (vec_of [3, 7, 0, 10, 50 * pi]) P0
        \<lparr>mx = 0, my = 0, speed = 36,
            yawrate = 9000, course = 0, GPS = True\<rparr> 2 = Inr (- pi)"
  using turning_prediction
    [of "\<lparr>mx = 0, my = 0, speed = 36, yawrate = 9000, course = 0, GPS = True\<rparr>"
        "vec_of [3, 7, 0, 10, 50 * pi]" P0]
  by (simp add: vec_of_def dt_def pymod_def)

text \<open>
  C4. The matrix \<open>JA\<close> built in each pass, at the state after the prediction, is the
  matrix of partial derivatives of the motion model \<open>gs\<close> at that state: every entry
  \<open>(i, j)\<close> is the derivative of component \<open>i\<close> in the variable \<open>j\<close>. It is the identity
  plus the six position partials and the entry \<open>dt\<close> for heading against yaw rate.
\<close>

theorem motion_jacobian_is_analytic:
  assumes "\<bar>yawrate s\<bar> < 0.0001 \<or> x 4 \<noteq> 0"
  shows "\<exists>x1 J. time_update x P s = Inr (x1, project_cov J P) \<and> JA x1 = Inr J
     \<and> (\<forall>i<5. \<forall>j<5. ((\<lambda>t. gs (x1(j := t)) i) has_real_derivative J i j) (at (x1 j)))
     \<and> J 0 0 = 1 \<and> J 1 1 = 1 \<and> J 2 2 = 1 \<and> J 3 3 = 1 \<and> J 4 4 = 1 \<and> J 2 4 = dt
     \<and> J 0 1 = 0 \<and> J 1 0 = 0
     \<and> J 2 0 = 0 \<and> J 2 1 = 0 \<and> J 2 3 = 0
     \<and> J 3 0 = 0 \<and> J 3 1 = 0 \<and> J 3 2 = 0 \<and> J 3 4 = 0
     \<and> J 4 0 = 0 \<and> J 4 1 = 0 \<and> J 4 2 = 0 \<and> J 4 3 = 0"
proof -
  from assms obtain x1 J where tu: "time_update x P s = Inr (x1, project_cov J P)"
    and J: "JA x1 = Inr J"
    using time_update_straight [of s x P] time_update_turning [of s x P] by blast
  have "\<forall>i<5. \<forall>j<5. ((\<lambda>t. gs (x1(j := t)) i) has_real_derivative J i j) (at (x1 j))"
  proof (intro allI impI)
    fix i j :: nat
    assume i: "i < 5" and j: "j < 5"
    from lt5 [OF i] d_row0 [OF J j] d_row1 [OF J j] d_row2 [OF J j] d_row3 [OF J j]
      d_row4 [OF J j]
    show "((\<lambda>t. gs (x1(j := t)) i) has_real_derivative J i j) (at (x1 j))"
      by auto
  qed
  with tu J JA_structure [OF J] show ?thesis by blast
qed

theorem motion_jacobian_is_analytic_witness:
  "(\<bar>yawrate \<lparr>mx = 0, my = 0, speed = 0,
      yawrate = 1, course = 0, GPS = True\<rparr>\<bar> < 0.0001
     \<or> vec_of [0, 0, 0, 1, 2] 4 \<noteq> 0)
   \<and> (\<exists>x1 J. time_update (vec_of [0, 0, 0, 1, 2]) P0
                \<lparr>mx = 0, my = 0, speed = 0, yawrate = 1, course = 0, GPS = True\<rparr>
               = Inr (x1, project_cov J P0) \<and> JA x1 = Inr J
       \<and> (\<forall>i<5. \<forall>j<5. ((\<lambda>t. gs (x1(j := t)) i) has_real_derivative J i j) (at (x1 j)))
       \<and> J 0 0 = 1 \<and> J 1 1 = 1 \<and> J 2 2 = 1 \<and> J 3 3 = 1 \<and> J 4 4 = 1 \<and> J 2 4 = dt
       \<and> J 0 1 = 0 \<and> J 1 0 = 0
       \<and> J 2 0 = 0 \<and> J 2 1 = 0 \<and> J 2 3 = 0
       \<and> J 3 0 = 0 \<and> J 3 1 = 0 \<and> J 3 2 = 0 \<and> J 3 4 = 0
       \<and> J 4 0 = 0 \<and> J 4 1 = 0 \<and> J 4 2 = 0 \<and> J 4 3 = 0)"
proof -
  have h: "\<bar>yawrate \<lparr>mx = 0, my = 0, speed = 0,
      yawrate = 1, course = 0, GPS = True\<rparr>\<bar> < 0.0001
     \<or> vec_of [0, 0, 0, 1, 2] 4 \<noteq> 0"
    by (simp add: vec_of_def)
  from h motion_jacobian_is_analytic
      [of "\<lparr>mx = 0, my = 0, speed = 0, yawrate = 1, course = 0, GPS = True\<rparr>"
          "vec_of [0, 0, 0, 1, 2]" P0]
  show ?thesis by blast
qed

text \<open>
  C5, on a log where the code divides by zero. The branch test of line 412 reads the
  logged yaw rate, while lines 445 to 459 divide by the yaw rate of the state. On the
  log of two samples below the correction of the first sample leaves a state yaw rate
  of exactly zero; the second sample has a logged yaw rate of 1 degree per second, so
  its pass takes the turning branch and divides by that zero: the row written for it
  shows the yaw rate 0 next to the branch flag 1, and the run ends with a state and a
  covariance that hold \<^verbatim>\<open>nan\<close>. The same happens in a single pass on the state
  \<open>(0, 0, 0, 1, 0)\<close>.
\<close>

theorem turning_branch_divides_by_zero:
  "corrected R
     (initial_state \<lparr>mx = 0, my = 0, speed = - (9 / 2500),
         yawrate = - (45 / (2500001 * 10 ^ 7 * pi)), course = 0, GPS = True\<rparr>) P0
     \<lparr>mx = 0, my = 0, speed = - (9 / 2500),
         yawrate = - (45 / (2500001 * 10 ^ 7 * pi)), course = 0, GPS = True\<rparr> 4 = Inr 0
   \<and> ddstate \<lparr>mx = 0, my = 0, speed = 0, yawrate = 1, course = 0, GPS = False\<rparr> = 1
   \<and> length (fst (ekf \<lparr>mx = 0, my = 0, speed = - (9 / 2500),
       yawrate = - (45 / (2500001 * 10 ^ 7 * pi)), course = 0, GPS = True\<rparr>
       [\<lparr>mx = 0, my = 0, speed = 0, yawrate = 1, course = 0, GPS = False\<rparr>])) = 2
   \<and> fst (ekf \<lparr>mx = 0, my = 0, speed = - (9 / 2500),
       yawrate = - (45 / (2500001 * 10 ^ 7 * pi)), course = 0, GPS = True\<rparr>
       [\<lparr>mx = 0, my = 0, speed = 0, yawrate = 1, course = 0, GPS = False\<rparr>]) ! 1 ! 4
      = Number 0
   \<and> fst (ekf \<lparr>mx = 0, my = 0, speed = - (9 / 2500),
       yawrate = - (45 / (2500001 * 10 ^ 7 * pi)), course = 0, GPS = True\<rparr>
       [\<lparr>mx = 0, my = 0, speed = 0, yawrate = 1, course = 0, GPS = False\<rparr>]) ! 1 ! 9
      = Number 1
   \<and> snd (ekf \<lparr>mx = 0, my = 0, speed = - (9 / 2500),
       yawrate = - (45 / (2500001 * 10 ^ 7 * pi)), course = 0, GPS = True\<rparr>
       [\<lparr>mx = 0, my = 0, speed = 0, yawrate = 1, course = 0, GPS = False\<rparr>])
      = Inr NotANumber
   \<and> vec_of [0, 0, 0, 1, 0] 4 = 0
   \<and> project_state
        (ddstate \<lparr>mx = 0, my = 0, speed = 0, yawrate = 1, course = 0, GPS = False\<rparr>)
        (vec_of [0, 0, 0, 1, 0]) = Inl FloatDivideByZero
   \<and> JA (vec_of [0, 0, 0, 1, 0]) = Inl FloatDivideByZero
   \<and> time_update (vec_of [0, 0, 0, 1, 0]) P0
        \<lparr>mx = 0, my = 0, speed = 0, yawrate = 1, course = 0, GPS = False\<rparr>
       = Inl FloatDivideByZero"
proof -
  have "ddstate \<lparr>mx = 0, my = 0, speed = 0, yawrate = 1, course = 0, GPS = False\<rparr> = 1
   \<and> vec_of [0, 0, 0, 1, 0] 4 = 0
   \<and> project_state
        (ddstate \<lparr>mx = 0, my = 0, speed = 0, yawrate = 1, course = 0, GPS = False\<rparr>)
        (vec_of [0, 0, 0, 1, 0]) = Inl FloatDivideByZero
   \<and> JA (vec_of [0, 0, 0, 1, 0]) = Inl FloatDivideByZero
   \<and> time_update (vec_of [0, 0, 0, 1, 0]) P0
        \<lparr>mx = 0, my = 0, speed = 0, yawrate = 1, course = 0, GPS = False\<rparr>
       = Inl FloatDivideByZero"
    by (simp add: time_update_def project_state_def JA_def ddstate_def vec_of_def)
  with zero_rate_reached ekf_divides_by_zero show ?thesis by blast
qed

text \<open>
  C6, as amended. The straight-line branch leaves the heading as it was, without
  bringing it into any interval; the turning branch leaves a heading \<open>h\<close> with
  \<open>-\<pi> \<le> h < \<pi>\<close>.
\<close>

theorem heading_after_prediction:
  "(\<bar>yawrate s\<bar> < 0.0001 \<longrightarrow> predicted x P s 2 = Inr (x 2))
   \<and> (\<not> \<bar>yawrate s\<bar> < 0.0001 \<and> x 4 \<noteq> 0 \<longrightarrow>
        (\<exists>h. predicted x P s 2 = Inr h \<and> - pi \<le> h \<and> h < pi))"
  using time_update_straight [of s x P] time_update_turning [of s x P]
    wrap_range [of "x 2 + x 4 * dt"]
  by (auto simp: predicted_def)

text \<open>
  A heading of 4 rad survives the straight-line branch, and the turning branch can
  return \<open>-\<pi>\<close>; neither lies in the interval open at \<open>-\<pi>\<close> and closed at \<open>\<pi>\<close>.
\<close>

theorem heading_after_prediction_counterexample:
  "predicted (vec_of [0, 0, 4, 1, 0]) P0
     \<lparr>mx = 0, my = 0, speed = 0, yawrate = 0, course = 0, GPS = True\<rparr> 2 = Inr 4
   \<and> \<not> (4 \<le> pi)
   \<and> predicted (vec_of [0, 0, 0, 1, 50 * pi]) P0
       \<lparr>mx = 0, my = 0, speed = 0,
           yawrate = 9000, course = 0, GPS = True\<rparr> 2 = Inr (- pi)
   \<and> \<not> (- pi < - pi)"
  using pi_less_4
  by (simp add: predicted_def time_update_def project_state_def ddstate_def
      JA_def Let_def vec_of_def pymod_def dt_def)

theorem heading_after_prediction_witness:
  "(\<bar>yawrate \<lparr>mx = 0, my = 0, speed = 0,
      yawrate = 0, course = 0, GPS = True\<rparr>\<bar> < 0.0001
    \<and> predicted (vec_of [0, 0, 4, 1, 0]) P0
        \<lparr>mx = 0, my = 0, speed = 0, yawrate = 0, course = 0, GPS = True\<rparr> 2 = Inr 4)
   \<and> (\<not> \<bar>yawrate \<lparr>mx = 0, my = 0, speed = 0,
       yawrate = 1, course = 0, GPS = True\<rparr>\<bar> < 0.0001
      \<and> vec_of [0, 0, 3, 1, 50] 4 \<noteq> 0
      \<and> (\<exists>h. predicted (vec_of [0, 0, 3, 1, 50]) P0
                \<lparr>mx = 0, my = 0, speed = 0,
                    yawrate = 1, course = 0, GPS = True\<rparr> 2 = Inr h
               \<and> - pi \<le> h \<and> h < pi))"
  using heading_after_prediction
      [of "\<lparr>mx = 0, my = 0, speed = 0, yawrate = 0, course = 0, GPS = True\<rparr>"
          "vec_of [0, 0, 4, 1, 0]" P0]
    heading_after_prediction
      [of "\<lparr>mx = 0, my = 0, speed = 0, yawrate = 1, course = 0, GPS = True\<rparr>"
          "vec_of [0, 0, 3, 1, 50]" P0]
  by (simp add: vec_of_def)

section \<open>Claims about the covariance and the correction\<close>





text \<open>
  C10. For a sample without position fix and a diagonal measurement noise, the state
  and the covariance after the pass do not depend on the position components of the
  measurement: replacing \<open>mx\<close> and \<open>my\<close> by any values gives the same result, and the
  columns of the Kalman gain that belong to the position measurements are zero.
\<close>

theorem correction_ignores_position_without_fix:
  assumes "\<not> GPS s" and "diagonal 4 Rm"
  shows "corrected Rm x P (s\<lparr>mx := a, my := b\<rparr>) i = corrected Rm x P s i
       \<and> corrected_cov Rm x P (s\<lparr>mx := a, my := b\<rparr>) i j = corrected_cov Rm x P s i j
       \<and> (\<forall>P1 Si k. linalg_inv (innovation_cov Rm P1 s) = Inr Si
            \<longrightarrow> kalman_gain P1 s Si k 0 = 0 \<and> kalman_gain P1 s Si k 1 = 0)"
proof -
  have eq: "snd (filter_step Rm x P (s\<lparr>mx := a, my := b\<rparr>)) = snd (filter_step Rm x P s)"
    by (rule filter_step_ignores_position [OF assms])
  show ?thesis
    using gain_no_fix [OF assms] by (simp add: corrected_def corrected_cov_def eq)
qed

theorem correction_ignores_position_without_fix_witness:
  "\<not> GPS \<lparr>mx = 3, my = 4, speed = 36, yawrate = 0, course = 0, GPS = False\<rparr>
   \<and> diagonal 4 R
   \<and> corrected R (vec_of [0, 0, 0, 1, 0]) P0
        (\<lparr>mx = 3, my = 4, speed = 36, yawrate = 0, course = 0, GPS = False\<rparr>
           \<lparr>mx := 100, my := - 7\<rparr>) 0
      = corrected R (vec_of [0, 0, 0, 1, 0]) P0
        \<lparr>mx = 3, my = 4, speed = 36, yawrate = 0, course = 0, GPS = False\<rparr> 0
   \<and> corrected_cov R (vec_of [0, 0, 0, 1, 0]) P0
        (\<lparr>mx = 3, my = 4, speed = 36, yawrate = 0, course = 0, GPS = False\<rparr>
           \<lparr>mx := 100, my := - 7\<rparr>) 0 0
      = corrected_cov R (vec_of [0, 0, 0, 1, 0]) P0
        \<lparr>mx = 3, my = 4, speed = 36, yawrate = 0, course = 0, GPS = False\<rparr> 0 0"
proof -
  have h: "\<not> GPS \<lparr>mx = 3, my = 4, speed = 36,
      yawrate = 0, course = 0, GPS = False\<rparr>"
    by simp
  from correction_ignores_position_without_fix
    [OF h diagonal_R, where x = "vec_of [0, 0, 0, 1, 0]" and P = P0 and a = 100
        and b = "- 7" and i = 0 and j = 0]
    h diagonal_R
  show ?thesis by blast
qed

section \<open>Claims about the written rows and the configuration\<close>

text \<open>
  C8, as amended. The row written for a sample holds the state estimate as it stands
  on entry to the pass, before the prediction and the correction for that sample: the
  first row holds the initial state, and the row of the next sample holds the corrected
  state of this one (\<^verbatim>\<open>nan\<close> in the five state fields once a pass has divided by
  zero). With it the row holds the measurement of the sample, the branch flag and the
  position-fix flag. This holds for the sample of every index \<open>k\<close>: its row is written
  as soon as its pass is entered, whatever becomes of the updates of that pass, and a
  sample has no row only when the inversion raised in the pass of an earlier sample; a
  run that ends without exception has written one row per sample.
\<close>

theorem rows_hold_entry_state:
  assumes "k < length ss"
  shows "(\<forall>ek. snd (ekf_loop Rm e (take k ss)) = Inr ek \<longrightarrow>
            k < length (fst (ekf_loop Rm e ss))
          \<and> fst (ekf_loop Rm e ss) ! k = fst (loop_body Rm ek (ss ! k))
          \<and> snd (ekf_loop Rm e (take (Suc k) ss)) = snd (loop_body Rm ek (ss ! k)))
       \<and> (\<forall>err. snd (ekf_loop Rm e (take k ss)) = Inl err \<longrightarrow>
            length (fst (ekf_loop Rm e ss)) \<le> k
          \<and> snd (ekf_loop Rm e ss) = Inl err)
       \<and> length (fst (ekf_loop Rm e ss)) \<le> length ss
       \<and> (\<forall>ef. snd (ekf_loop Rm e ss) = Inr ef \<longrightarrow>
             length (fst (ekf_loop Rm e ss)) = length ss)
       \<and> snd (ekf_loop Rm e (take 0 ss)) = Inr e
       \<and> fst (loop_body Rm (Estimate x P) (ss ! k))
          = map Number [x 0, x 1, x 2, x 3, x 4,
              measurements (ss ! k) 0, measurements (ss ! k) 1,
              measurements (ss ! k) 2, measurements (ss ! k) 3,
              real (ddstate (ss ! k)), if GPS (ss ! k) then 1 else 0]
       \<and> fst (loop_body Rm NotANumber (ss ! k))
          = [NaN, NaN, NaN, NaN, NaN,
             Number (measurements (ss ! k) 0), Number (measurements (ss ! k) 1),
             Number (measurements (ss ! k) 2), Number (measurements (ss ! k) 3),
             Number (real (ddstate (ss ! k))), Number (if GPS (ss ! k) then 1 else 0)]
       \<and> (\<forall>x2 P2. snd (filter_step Rm x P (ss ! k)) = Inr (x2, P2) \<longrightarrow>
             snd (loop_body Rm (Estimate x P) (ss ! k)) = Inr (Estimate x2 P2)
           \<and> (\<forall>i. corrected Rm x P (ss ! k) i = Inr (x2 i)))"
proof -
  have "fst (loop_body Rm (Estimate x P) (ss ! k))
          = map Number [x 0, x 1, x 2, x 3, x 4,
              measurements (ss ! k) 0, measurements (ss ! k) 1,
              measurements (ss ! k) 2, measurements (ss ! k) 3,
              real (ddstate (ss ! k)), if GPS (ss ! k) then 1 else 0]"
    by (simp add: loop_body_row dataout_def Let_def)
  moreover have "fst (loop_body Rm NotANumber (ss ! k))
          = [NaN, NaN, NaN, NaN, NaN,
             Number (measurements (ss ! k) 0), Number (measurements (ss ! k) 1),
             Number (measurements (ss ! k) 2), Number (measurements (ss ! k) 3),
             Number (real (ddstate (ss ! k))), Number (if GPS (ss ! k) then 1 else 0)]"
    by (simp add: dataout_nan_def Let_def)
  moreover have "snd (loop_body Rm (Estimate x P) (ss ! k)) = Inr (Estimate x2 P2)
           \<and> (\<forall>i. corrected Rm x P (ss ! k) i = Inr (x2 i))"
    if "snd (filter_step Rm x P (ss ! k)) = Inr (x2, P2)" for x2 P2
    using that by (simp add: split_def corrected_def loop_body.simps split: sum.splits error.splits)
  moreover have "snd (ekf_loop Rm e (take 0 ss)) = Inr e" by simp
  moreover have "length (fst (ekf_loop Rm e ss)) = length ss"
    if "snd (ekf_loop Rm e ss) = Inr ef" for ef
    using that by (rule ekf_loop_length)
  moreover note ekf_loop_length_le [of Rm e ss] ekf_loop_rows [OF assms, of Rm e]
  ultimately show ?thesis by blast
qed

text \<open>
  A pass whose measurement equals the predicted measurement ends in the predicted
  state \<open>(1/50, 0, 0, 1, 10\<^sup>-\<^sup>7)\<close>, while the row it wrote holds the state of entry
  \<open>(0, 0, 0, 1, 0)\<close>.
\<close>

theorem row_is_not_corrected_state_counterexample:
  "written R (vec_of [0, 0, 0, 1, 0]) P0
           \<lparr>mx = 1 / 50, my = 0, speed = 18 / 5,
               yawrate = 180 / (10 ^ 7 * pi), course = 0, GPS = True\<rparr>
         = [0, 0, 0, 1, 0, 1 / 50, 0, 1, 1 / 10 ^ 7, 0, 1]
   \<and> corrected R (vec_of [0, 0, 0, 1, 0]) P0
           \<lparr>mx = 1 / 50, my = 0, speed = 18 / 5,
               yawrate = 180 / (10 ^ 7 * pi), course = 0, GPS = True\<rparr> 0 = Inr (1 / 50)
   \<and> corrected R (vec_of [0, 0, 0, 1, 0]) P0
           \<lparr>mx = 1 / 50, my = 0, speed = 18 / 5,
               yawrate = 180 / (10 ^ 7 * pi), course = 0, GPS = True\<rparr> 4 = Inr (1 / 10 ^ 7)"
  using zero_innovation_pass [OF psd_P0 pd_imp_psd [OF pd_R]] by simp

theorem rows_hold_entry_state_witness:
  "(1::nat) < length
       [\<lparr>mx = 1 / 50, my = 0, speed = 18 / 5, yawrate = 0, course = 0, GPS = True\<rparr>,
        \<lparr>mx = 1 / 25, my = 0, speed = 18 / 5, yawrate = 0, course = 0, GPS = False\<rparr>]
   \<and> (\<exists>x2 P2.
        snd (ekf_loop R (Estimate (vec_of [0, 0, 0, 1, 0]) P0)
          (take 1
            [\<lparr>mx = 1 / 50, my = 0, speed = 18 / 5, yawrate = 0, course = 0, GPS = True\<rparr>,
             \<lparr>mx = 1 / 25, my = 0, speed = 18 / 5,
                 yawrate = 0, course = 0, GPS = False\<rparr>]))
         = Inr (Estimate x2 P2)
      \<and> 1 < length (fst (ekf_loop R (Estimate (vec_of [0, 0, 0, 1, 0]) P0)
            [\<lparr>mx = 1 / 50, my = 0, speed = 18 / 5, yawrate = 0, course = 0, GPS = True\<rparr>,
             \<lparr>mx = 1 / 25, my = 0, speed = 18 / 5,
                 yawrate = 0, course = 0, GPS = False\<rparr>]))
      \<and> fst (ekf_loop R (Estimate (vec_of [0, 0, 0, 1, 0]) P0)
            [\<lparr>mx = 1 / 50, my = 0, speed = 18 / 5, yawrate = 0, course = 0, GPS = True\<rparr>,
             \<lparr>mx = 1 / 25, my = 0, speed = 18 / 5,
                 yawrate = 0, course = 0, GPS = False\<rparr>]) ! 1
         = map Number [x2 0, x2 1, x2 2, x2 3, x2 4, 1 / 25, 0, 1, 0, 0, 0])
   \<and> length (fst (ekf_loop R (Estimate (vec_of [0, 0, 0, 1, 0]) P0)
            [\<lparr>mx = 1 / 50, my = 0, speed = 18 / 5, yawrate = 0, course = 0, GPS = True\<rparr>,
             \<lparr>mx = 1 / 25, my = 0, speed = 18 / 5,
                 yawrate = 0, course = 0, GPS = False\<rparr>])) = 2
   \<and> snd (ekf_loop (diag_of [0, 25, 4, 1 / 10000]) (Estimate (vec_of [0, 0, 0, 1, 0]) P0)
          (take 1
            [\<lparr>mx = 1 / 50, my = 0, speed = 18 / 5, yawrate = 0, course = 0, GPS = False\<rparr>,
             \<lparr>mx = 1 / 25, my = 0, speed = 18 / 5,
                 yawrate = 0, course = 0, GPS = False\<rparr>]))
       = Inl LinAlgError
   \<and> length (fst (ekf_loop (diag_of [0, 25, 4, 1 / 10000])
         (Estimate (vec_of [0, 0, 0, 1, 0]) P0)
            [\<lparr>mx = 1 / 50, my = 0, speed = 18 / 5, yawrate = 0, course = 0, GPS = False\<rparr>,
             \<lparr>mx = 1 / 25, my = 0, speed = 18 / 5,
                 yawrate = 0, course = 0, GPS = False\<rparr>])) \<le> 1
   \<and> fst (ekf_loop (diag_of [0, 25, 4, 1 / 10000])
         (Estimate (vec_of [0, 0, 0, 1, 0]) P0)
            [\<lparr>mx = 1 / 50, my = 0, speed = 18 / 5, yawrate = 0, course = 0, GPS = False\<rparr>,
             \<lparr>mx = 1 / 25, my = 0, speed = 18 / 5,
                 yawrate = 0, course = 0, GPS = False\<rparr>]) ! 0
       = map Number [0, 0, 0, 1, 0, 1 / 50, 0, 1, 0, 0, 0]
   \<and> (\<exists>x2 P2.
        snd (filter_step R (vec_of [0, 0, 0, 1, 0]) P0
          \<lparr>mx = 1 / 50, my = 0, speed = 18 / 5, yawrate = 0, course = 0, GPS = True\<rparr>)
         = Inr (x2, P2)
      \<and> snd (loop_body R (Estimate (vec_of [0, 0, 0, 1, 0]) P0)
          \<lparr>mx = 1 / 50, my = 0, speed = 18 / 5, yawrate = 0, course = 0, GPS = True\<rparr>)
         = Inr (Estimate x2 P2)
      \<and> corrected R (vec_of [0, 0, 0, 1, 0]) P0
          \<lparr>mx = 1 / 50, my = 0, speed = 18 / 5, yawrate = 0, course = 0, GPS = True\<rparr> 4
         = Inr (x2 4))"
proof -
  let ?a = "\<lparr>mx = 1 / 50, my = 0, speed = 18 / 5, yawrate = 0, course = 0, GPS = True\<rparr>"
  let ?b = "\<lparr>mx = 1 / 25, my = 0, speed = 18 / 5, yawrate = 0, course = 0, GPS = False\<rparr>"
  let ?c = "\<lparr>mx = 1 / 50, my = 0, speed = 18 / 5, yawrate = 0, course = 0, GPS = False\<rparr>"
  let ?x = "vec_of [0, 0, 0, 1, 0]"
  let ?Rz = "diag_of [0, 25, 4, 1 / 10000]"
  have len: "(1::nat) < length [?a, ?b]" "(1::nat) < length [?c, ?b]"
    "(0::nat) < length [?c, ?b]"
    by simp_all
  have "\<forall>s\<in>set [?a]. \<bar>yawrate s\<bar> < 0.0001" by simp
  from ekf_loop_defined [OF symmetric_P0 psd_P0 symmetric_R pd_R this, of ?x]
  obtain x2 P2 where
    l: "snd (ekf_loop R (Estimate ?x P0) (take 1 [?a, ?b])) = Inr (Estimate x2 P2)"
    by auto
  from rows_hold_entry_state [OF len(1), of R "Estimate ?x P0" x2 P2] l
  have "1 < length (fst (ekf_loop R (Estimate ?x P0) [?a, ?b]))"
    and "fst (ekf_loop R (Estimate ?x P0) [?a, ?b]) ! 1
       = map Number [x2 0, x2 1, x2 2, x2 3, x2 4, 1 / 25, 0, 1, 0, 0, 0]"
    by (simp_all add: measurements_def vec_of_def ddstate_def)
  with l have first: "\<exists>x2 P2.
        snd (ekf_loop R (Estimate ?x P0) (take 1 [?a, ?b])) = Inr (Estimate x2 P2)
      \<and> 1 < length (fst (ekf_loop R (Estimate ?x P0) [?a, ?b]))
      \<and> fst (ekf_loop R (Estimate ?x P0) [?a, ?b]) ! 1
         = map Number [x2 0, x2 1, x2 2, x2 3, x2 4, 1 / 25, 0, 1, 0, 0, 0]"
    by blast
  have z: "?Rz 0 0 = 0" "?Rz 0 1 = 0" "?Rz 0 2 = 0" "?Rz 0 3 = 0"
    by (simp_all add: diag_of_def)
  have c: "\<not> GPS ?c" "\<bar>yawrate ?c\<bar> < 0.0001 \<or> ?x 4 \<noteq> 0" by simp_all
  from c z filter_step_singular [where s = ?c and Rm = ?Rz and x = ?x and P = P0]
  have fs: "filter_step ?Rz ?x P0 ?c = (dataout ?x ?c, Inl LinAlgError)" by blast
  have raised: "snd (ekf_loop ?Rz (Estimate ?x P0) (take 1 [?c, ?b])) = Inl LinAlgError"
    using ekf_loop_Cons_Inl [OF loop_body_raise [OF fs], of "[]"] by simp
  from rows_hold_entry_state [OF len(2), of ?Rz "Estimate ?x P0"] raised
  have short: "length (fst (ekf_loop ?Rz (Estimate ?x P0) [?c, ?b])) \<le> 1"
    by blast
  from rows_hold_entry_state [OF len(3), of ?Rz "Estimate ?x P0" ?x P0]
  have "fst (ekf_loop ?Rz (Estimate ?x P0) [?c, ?b]) ! 0
       = map Number [0, 0, 0, 1, 0, 1 / 50, 0, 1, 0, 0, 0]"
    by (simp add: measurements_def vec_of_def ddstate_def)
  moreover have "length (fst (ekf_loop R (Estimate ?x P0) [?a, ?b])) = 2"
  proof -
    have "\<forall>s\<in>set [?a, ?b]. \<bar>yawrate s\<bar> < 0.0001" by simp
    from ekf_loop_defined [OF symmetric_P0 psd_P0 symmetric_R pd_R this, of ?x]
    obtain xf Pf where
      "snd (ekf_loop R (Estimate ?x P0) [?a, ?b]) = Inr (Estimate xf Pf)" by blast
    with rows_hold_entry_state [OF len(1), of R "Estimate ?x P0"]
    show ?thesis by simp
  qed
  moreover have "\<exists>x2 P2. snd (filter_step R ?x P0 ?a) = Inr (x2, P2)
      \<and> snd (loop_body R (Estimate ?x P0) ?a) = Inr (Estimate x2 P2)
      \<and> corrected R ?x P0 ?a 4 = Inr (x2 4)"
  proof -
    have "\<bar>yawrate ?a\<bar> < 0.0001 \<or> ?x 4 \<noteq> 0" by simp
    with psd_P0 pd_R filter_step_defined [where s = ?a and Rm = R and x = ?x and P = P0]
    obtain x2 P2 where fs: "snd (filter_step R ?x P0 ?a) = Inr (x2, P2)" by auto
    have "(0::nat) < length [?a, ?b]" by simp
    from rows_hold_entry_state [OF this, of R "Estimate ?x P0" ?x P0] fs
    have "snd (loop_body R (Estimate ?x P0) ?a) = Inr (Estimate x2 P2)"
      and "corrected R ?x P0 ?a 4 = Inr (x2 4)"
      by simp_all
    with fs show ?thesis by blast
  qed
  ultimately show ?thesis using first raised short len(1) by blast
qed




end
